theory Spec2Isabelle
  imports Main
begin

section \<open>Values, errors and the token codec\<close>

text \<open>
  Instants are milliseconds since the epoch: an ISO string written by
  \<^verbatim>\<open>toISOString\<close> and read back by \<^verbatim>\<open>new Date\<close> denotes exactly one of them.
  A thrown JavaScript error is a value; \<open>StoreError n\<close> is a rejection of
  \<^verbatim>\<open>dbClient.send\<close> whose constructor is named \<open>n\<close>.
\<close>

type_synonym time = int

datatype js_error = TypeError | StoreError string

fun constructor_name :: "js_error \<Rightarrow> string" where
  "constructor_name TypeError = ''TypeError''"
| "constructor_name (StoreError n) = n"

record claims =
  sub :: string
  email :: string
  iat :: int
  exp_at :: int

text \<open>
  What \<^verbatim>\<open>jwt.verify\<close> throws. \<open>TokenExpiredError\<close> and \<open>NotBeforeError\<close> are
  subclasses of \<open>JsonWebTokenError\<close> in the library; \<open>OtherError c\<close> is an error of
  any other class \<open>c\<close>. The library function itself is a parameter of the model.
\<close>

datatype jwt_thrown =
    TokenExpiredError string time
  | NotBeforeError string time
  | JsonWebTokenError string
  | OtherError string

type_synonym jwt_verify_fn = "time \<Rightarrow> string \<Rightarrow> string \<Rightarrow> jwt_thrown + claims"
type_synonym jwt_sign_fn = "time \<Rightarrow> string \<times> string \<Rightarrow> string \<Rightarrow> string \<Rightarrow> string"

record error_info =
  errorName :: string
  errorMessage :: string
  expiredAt :: "time option"
  date :: "time option"

record verify_result =
  valid :: bool
  payload :: "claims option"
  error :: "error_info option"

text \<open>\<^verbatim>\<open>verifyToken(token, secret)\<close>; \<open>None\<close> is the JavaScript \<^verbatim>\<open>null\<close>.\<close>

definition verifyToken :: "jwt_verify_fn \<Rightarrow> time \<Rightarrow> string \<Rightarrow> string \<Rightarrow> verify_result option" where
  "verifyToken jv now token secret =
     (case jv now token secret of
        Inr p \<Rightarrow> Some \<lparr>valid = True, payload = Some p, error = None\<rparr>
      | Inl (TokenExpiredError msg at) \<Rightarrow>
          Some \<lparr>valid = True, payload = None,
                error = Some \<lparr>errorName = ''TokenExpiredError'', errorMessage = msg,
                              expiredAt = Some at, date = None\<rparr>\<rparr>
      | Inl (NotBeforeError msg d) \<Rightarrow>
          Some \<lparr>valid = False, payload = None,
                error = Some \<lparr>errorName = ''NotBeforeError'', errorMessage = msg,
                              expiredAt = None, date = Some d\<rparr>\<rparr>
      | Inl (JsonWebTokenError msg) \<Rightarrow>
          Some \<lparr>valid = False, payload = None,
                error = Some \<lparr>errorName = ''JsonWebTokenError'', errorMessage = msg,
                              expiredAt = None, date = Some now\<rparr>\<rparr>
      | Inl (OtherError e) \<Rightarrow> None)"

definition generateAccessToken :: "jwt_sign_fn \<Rightarrow> time \<Rightarrow> string \<times> string \<Rightarrow> string \<Rightarrow> string \<Rightarrow> string" where
  "generateAccessToken js now user secret expiry = js now user secret expiry"

definition generateRefreshToken :: "jwt_sign_fn \<Rightarrow> time \<Rightarrow> string \<times> string \<Rightarrow> string \<Rightarrow> string \<Rightarrow> string" where
  "generateRefreshToken js now user secret expiry = js now user secret expiry"

section \<open>The refresh-token table\<close>

text \<open>
  An item written by \<^verbatim>\<open>createRefreshToken\<close> has all eight attributes. The update
  commands of the repository carry no condition expression, and the store's update on a
  key that is not in the table adds an item holding the key and the attribute that was
  set: that is a \<open>Partial\<close> item (the key, \<open>revoked\<close> if set, \<open>last_used_at\<close> if set).
  These are the only two shapes the repository can produce. The store's own expiry sweep
  on \<open>ttl\<close> is not modelled.
\<close>

record token_record =
  rec_id :: string
  token_hash :: string
  user_id :: string
  expires_at :: time
  ttl :: int
  revoked :: bool
  created_at :: time
  last_used_at :: time

datatype item = Full token_record | Partial string "bool option" "time option"

fun key_of :: "item \<Rightarrow> string" where
  "key_of (Full r) = token_hash r"
| "key_of (Partial k rv lu) = k"

text \<open>Truthiness of \<^verbatim>\<open>item.revoked\<close>: a missing attribute is \<^verbatim>\<open>undefined\<close>.\<close>

fun item_revoked :: "item \<Rightarrow> bool" where
  "item_revoked (Full r) = revoked r"
| "item_revoked (Partial k rv lu) = (rv = Some True)"

fun item_expires_at :: "item \<Rightarrow> time option" where
  "item_expires_at (Full r) = Some (expires_at r)"
| "item_expires_at (Partial k rv lu) = None"

fun set_revoked :: "item \<Rightarrow> item" where
  "set_revoked (Full r) = Full (r\<lparr>revoked := True\<rparr>)"
| "set_revoked (Partial k rv lu) = Partial k (Some True) lu"

fun set_last_used :: "time \<Rightarrow> item \<Rightarrow> item" where
  "set_last_used t (Full r) = Full (r\<lparr>last_used_at := t\<rparr>)"
| "set_last_used t (Partial k rv lu) = Partial k rv (Some t)"

text \<open>
  The table is an association list on the primary key \<open>token_hash\<close>; its order is the
  order in which a query on the index returns the items.
\<close>

fun tbl_get :: "string \<Rightarrow> item list \<Rightarrow> item option" where
  "tbl_get k [] = None"
| "tbl_get k (x # xs) = (if key_of x = k then Some x else tbl_get k xs)"

fun tbl_put :: "item \<Rightarrow> item list \<Rightarrow> item list" where
  "tbl_put it [] = [it]"
| "tbl_put it (x # xs) = (if key_of x = key_of it then it # xs else x # tbl_put it xs)"

fun tbl_set_revoked :: "string \<Rightarrow> item list \<Rightarrow> item list" where
  "tbl_set_revoked k [] = [Partial k (Some True) None]"
| "tbl_set_revoked k (x # xs) =
     (if key_of x = k then set_revoked x # xs else x # tbl_set_revoked k xs)"

fun tbl_set_last_used :: "string \<Rightarrow> time \<Rightarrow> item list \<Rightarrow> item list" where
  "tbl_set_last_used k t [] = [Partial k None (Some t)]"
| "tbl_set_last_used k t (x # xs) =
     (if key_of x = k then set_last_used t x # xs else x # tbl_set_last_used k t xs)"

text \<open>The index \<open>user_id-index\<close> holds the items that have a \<open>user_id\<close>.\<close>

fun user_records :: "string \<Rightarrow> item list \<Rightarrow> token_record list" where
  "user_records u [] = []"
| "user_records u (Full r # xs) =
     (if user_id r = u then r # user_records u xs else user_records u xs)"
| "user_records u (Partial k rv lu # xs) = user_records u xs"

text \<open>
  The backing store: the table, the number of requests sent so far, which requests the
  store rejects (\<open>fails db n = Some c\<close>: the \<open>n\<close>-th request rejects with an error of
  class \<open>c\<close>), and its paging (\<open>page db rs\<close>: of the items \<open>rs\<close> that match the key
  condition of a query, how many the store reads, from the front, before the size limit
  of one page is reached). \<open>send\<close> is \<^verbatim>\<open>dbClient.send\<close> for one command.
\<close>

record db =
  items :: "item list"
  sends :: nat
  fails :: "nat \<Rightarrow> string option"
  page :: "token_record list \<Rightarrow> nat"

definition send :: "(item list \<Rightarrow> 'a \<times> item list) \<Rightarrow> db \<Rightarrow> (js_error + 'a) \<times> db" where
  "send cmd d =
     (case fails d (sends d) of
        Some c \<Rightarrow> (Inl (StoreError c), d\<lparr>sends := Suc (sends d)\<rparr>)
      | None \<Rightarrow> (case cmd (items d) of
                   (a, its) \<Rightarrow> (Inr a, d\<lparr>items := its, sends := Suc (sends d)\<rparr>)))"

definition PutCommand :: "item \<Rightarrow> item list \<Rightarrow> unit \<times> item list" where
  "PutCommand it its = ((), tbl_put it its)"

definition GetCommand :: "string \<Rightarrow> item list \<Rightarrow> item option \<times> item list" where
  "GetCommand k its = (tbl_get k its, its)"

definition UpdateRevoked :: "string \<Rightarrow> item list \<Rightarrow> item option \<times> item list" where
  "UpdateRevoked k its = (tbl_get k (tbl_set_revoked k its), tbl_set_revoked k its)"

definition UpdateLastUsed :: "string \<Rightarrow> time \<Rightarrow> item list \<Rightarrow> item option \<times> item list" where
  "UpdateLastUsed k t its = (tbl_get k (tbl_set_last_used k t its), tbl_set_last_used k t its)"

text \<open>
  One \<^verbatim>\<open>QueryCommand\<close> on the index answers with one page: the matching items the
  store read before the size limit, and a \<^verbatim>\<open>LastEvaluatedKey\<close> when more remain. The
  repository reads \<^verbatim>\<open>Items\<close> of that one answer and never the key, so the key is not
  part of the result here.
\<close>

definition first_page :: "(token_record list \<Rightarrow> nat) \<Rightarrow> token_record list \<Rightarrow> token_record list" where
  "first_page pg rs = take (pg rs) rs"

definition QueryUser ::
  "(token_record list \<Rightarrow> nat) \<Rightarrow> string \<Rightarrow> item list \<Rightarrow> token_record list \<times> item list" where
  "QueryUser pg u its = (first_page pg (user_records u its), its)"

text \<open>
  The same query with the filter expression \<^verbatim>\<open>revoked = :revoked\<close>, \<^verbatim>\<open>:revoked\<close> being
  false: the store applies the filter to the page it has read.
\<close>

definition queried_active :: "(token_record list \<Rightarrow> nat) \<Rightarrow> string \<Rightarrow> item list \<Rightarrow> token_record list" where
  "queried_active pg u its = filter (\<lambda>r. revoked r = False) (first_page pg (user_records u its))"

definition QueryUserActive ::
  "(token_record list \<Rightarrow> nat) \<Rightarrow> string \<Rightarrow> item list \<Rightarrow> token_record list \<times> item list" where
  "QueryUserActive pg u its = (queried_active pg u its, its)"

text \<open>
  Commands issued together and awaited with \<^verbatim>\<open>Promise.all\<close>: every command is sent,
  each succeeds or fails on its own, and the whole rejects when one of them did.
\<close>

fun send_all :: "(item list \<Rightarrow> 'a \<times> item list) list \<Rightarrow> db \<Rightarrow> (js_error + 'a) list \<times> db" where
  "send_all [] d = ([], d)"
| "send_all (c # cs) d =
     (case send c d of (r, d1) \<Rightarrow> (case send_all cs d1 of (rs, d2) \<Rightarrow> (r # rs, d2)))"

fun promise_all :: "(js_error + 'a) list \<Rightarrow> js_error + 'a list" where
  "promise_all [] = Inr []"
| "promise_all (Inl e # rs) = Inl e"
| "promise_all (Inr a # rs) = (case promise_all rs of Inl e \<Rightarrow> Inl e | Inr as \<Rightarrow> Inr (a # as))"

section \<open>The refresh-token repository\<close>

text \<open>
  \<open>H\<close> is the SHA-256 hex digest, \<open>uuid\<close> the value of \<^verbatim>\<open>crypto.randomUUID()\<close>,
  \<open>now\<close> the clock, read once in a call. A result \<open>Inl e\<close> is the function throwing
  \<open>e\<close>; \<^verbatim>\<open>console.error\<close> is left out.
\<close>

definition createRefreshToken ::
  "(string \<Rightarrow> string) \<Rightarrow> string \<Rightarrow> time \<Rightarrow> string \<Rightarrow> string \<Rightarrow> db \<Rightarrow> (js_error + token_record) \<times> db" where
  "createRefreshToken H uuid now userId token d =
     (let tokenHash = H token;
          expiresAt = now + 7 * 24 * 60 * 60 * 1000;
          newToken = \<lparr>rec_id = uuid, token_hash = tokenHash, user_id = userId,
                      expires_at = expiresAt, ttl = expiresAt div 1000, revoked = False,
                      created_at = now, last_used_at = now\<rparr>
      in case send (PutCommand (Full newToken)) d of
           (Inl e, d1) \<Rightarrow> (Inl e, d1)
         | (Inr u, d1) \<Rightarrow> (Inr newToken, d1))"

definition getRefreshToken ::
  "(string \<Rightarrow> string) \<Rightarrow> string \<Rightarrow> db \<Rightarrow> (js_error + item option) \<times> db" where
  "getRefreshToken H token d =
     (case send (GetCommand (H token)) d of
        (Inl e, d1) \<Rightarrow> (Inl e, d1)
      | (Inr tokenData, d1) \<Rightarrow>
          (case tokenData of
             None \<Rightarrow> (Inr None, d1)
           | Some it \<Rightarrow> if item_revoked it then (Inr None, d1) else (Inr (Some it), d1)))"

definition updateRefreshTokenLastUsed ::
  "(string \<Rightarrow> string) \<Rightarrow> time \<Rightarrow> string \<Rightarrow> db \<Rightarrow> (js_error + item option) \<times> db" where
  "updateRefreshTokenLastUsed H now token d =
     (case send (UpdateLastUsed (H token) now) d of
        (Inl e, d1) \<Rightarrow> (Inl e, d1)
      | (Inr attrs, d1) \<Rightarrow> (Inr attrs, d1))"

definition revokeRefreshToken ::
  "(string \<Rightarrow> string) \<Rightarrow> string \<Rightarrow> db \<Rightarrow> (js_error + bool) \<times> db" where
  "revokeRefreshToken H token d =
     (case send (UpdateRevoked (H token)) d of
        (Inl e, d1) \<Rightarrow> (Inr False, d1)
      | (Inr attrs, d1) \<Rightarrow> (Inr True, d1))"

definition revokeAllUserTokens :: "string \<Rightarrow> db \<Rightarrow> (js_error + nat) \<times> db" where
  "revokeAllUserTokens userId d =
     (case send (QueryUser (page d) userId) d of
        (Inl e, d1) \<Rightarrow> (Inl e, d1)
      | (Inr tokens, d1) \<Rightarrow>
          (case send_all (map (\<lambda>t. UpdateRevoked (token_hash t))
                              (filter (\<lambda>t. \<not> revoked t) tokens)) d1 of
             (rs, d2) \<Rightarrow>
               (case promise_all rs of
                  Inl e \<Rightarrow> (Inl e, d2)
                | Inr done \<Rightarrow> (Inr (length tokens), d2))))"

text \<open>
  \<open>maxTokens\<close> is an integer. \<^verbatim>\<open>Array.prototype.slice(start)\<close> on an integer start:
  a negative start counts from the end of the array. \<^verbatim>\<open>sort\<close> with the comparator
  \<^verbatim>\<open>new Date(b.created_at) - new Date(a.created_at)\<close> is a stable sort by descending
  \<open>created_at\<close>.
\<close>

definition js_slice :: "int \<Rightarrow> 'a list \<Rightarrow> 'a list" where
  "js_slice start xs =
     (if start < 0 then drop (nat (max (int (length xs) + start) 0)) xs
      else drop (nat start) xs)"

definition sort_newest_first :: "token_record list \<Rightarrow> token_record list" where
  "sort_newest_first ts = sort_key (\<lambda>t. - created_at t) ts"

definition limitUserTokens :: "string \<Rightarrow> int \<Rightarrow> db \<Rightarrow> (js_error + nat) \<times> db" where
  "limitUserTokens userId maxTokens d =
     (case send (QueryUserActive (page d) userId) d of
        (Inl e, d1) \<Rightarrow> (Inl e, d1)
      | (Inr queried, d1) \<Rightarrow>
          (let tokens = sort_newest_first queried in
           if int (length tokens) \<ge> maxTokens then
             (let tokensToRevoke = js_slice (maxTokens - 1) tokens in
              case send_all (map (\<lambda>t. UpdateRevoked (token_hash t)) tokensToRevoke) d1 of
                (rs, d2) \<Rightarrow>
                  (case promise_all rs of
                     Inl e \<Rightarrow> (Inl e, d2)
                   | Inr done \<Rightarrow> (Inr (length tokensToRevoke), d2)))
           else (Inr 0, d1)))"

section \<open>The middleware and the refresh route\<close>

text \<open>
  A response is its status, its JSON body and the cookies it sets; of a cookie only the
  name and the value are kept.
\<close>

datatype body =
    ErrorText string
  | ErrorWithDetails string "error_info option"
  | ErrorObject "error_info option"
  | Success

record response =
  status :: nat
  body :: body
  cookies :: "(string \<times> string) list"

datatype mw_result = Responded response | Next "claims option"

text \<open>\<^verbatim>\<open>a || b\<close> on two header values that may be missing.\<close>

definition js_or :: "string option \<Rightarrow> string option \<Rightarrow> string option" where
  "js_or a b = (case a of None \<Rightarrow> b | Some s \<Rightarrow> if s = [] then b else Some s)"

text \<open>
  \<^verbatim>\<open>authenticateRequest\<close>: \<open>Inl TypeError\<close> is the property read on \<^verbatim>\<open>null\<close>,
  \<open>Next u\<close> is \<^verbatim>\<open>req.user = u; next()\<close>.
\<close>

definition authenticateRequest ::
  "jwt_verify_fn \<Rightarrow> string \<Rightarrow> time \<Rightarrow> string option \<Rightarrow> string option \<Rightarrow> js_error + mw_result" where
  "authenticateRequest jv accessSecret now authorization Authorization =
     (case js_or authorization Authorization of
        None \<Rightarrow>
          Inr (Responded \<lparr>status = 401,
                 body = ErrorObject (Some \<lparr>errorName = ''AccessTokenRequired'',
                          errorMessage = ''Access token is required'',
                          expiredAt = None, date = None\<rparr>),
                 cookies = []\<rparr>)
      | Some authHeader \<Rightarrow>
          if take 7 authHeader \<noteq> ''Bearer '' then
            Inr (Responded \<lparr>status = 401,
                   body = ErrorObject (Some \<lparr>errorName = ''AccessTokenRequired'',
                            errorMessage = ''Access token is required'',
                            expiredAt = None, date = None\<rparr>),
                   cookies = []\<rparr>)
          else
            (case verifyToken jv now (drop 7 authHeader) accessSecret of
               None \<Rightarrow> Inl TypeError
             | Some result \<Rightarrow>
                 if valid result = True \<and> error result \<noteq> None then
                   Inr (Responded \<lparr>status = 401, body = ErrorObject (error result), cookies = []\<rparr>)
                 else if valid result = False then
                   Inr (Responded \<lparr>status = 403, body = ErrorObject (error result), cookies = []\<rparr>)
                 else Inr (Next (payload result))))"

record env =
  sha256 :: "string \<Rightarrow> string"
  jwt_verify :: jwt_verify_fn
  jwt_sign :: jwt_sign_fn
  ACCESS_TOKEN_SECRET :: string
  REFRESH_TOKEN_SECRET :: string
  ACCESS_TOKEN_EXPIRY :: string
  REFRESH_TOKEN_EXPIRY :: string

definition respond500 :: "js_error \<Rightarrow> response" where
  "respond500 e =
     \<lparr>status = 500,
      body = ErrorText (''An unknown error of type '' @ constructor_name e @
               '' caused the server to return 500 Internal Server Error''),
      cookies = []\<rparr>"

definition reject :: "nat \<Rightarrow> string \<Rightarrow> response" where
  "reject code msg = \<lparr>status = code, body = ErrorText msg, cookies = []\<rparr>"

text \<open>
  The handler of \<^verbatim>\<open>POST /auth/refresh\<close> in two parts. \<open>refresh_check\<close> runs from
  the start of the handler to the comparison of \<open>expires_at\<close> with the clock and either
  answers (\<open>Inl\<close>) or hands on the raw token and the decoded payload;
  \<open>refresh_rotate\<close> is the rest, from \<^verbatim>\<open>await revokeRefreshToken\<close> on. Every
  \<^verbatim>\<open>await\<close> of the handler lies inside one of the two parts or between them, so
  another request may run between them. \<open>refresh_route\<close> is the handler running
  without another request in between, the clock read once.
\<close>

definition refresh_check ::
  "env \<Rightarrow> time \<Rightarrow> string option \<Rightarrow> db \<Rightarrow> (response + string \<times> claims option) \<times> db" where
  "refresh_check E now cookie d =
     (case cookie of
        None \<Rightarrow> (Inl (reject 401 ''Refresh token not found''), d)
      | Some oldRefreshToken \<Rightarrow>
          if oldRefreshToken = [] then (Inl (reject 401 ''Refresh token not found''), d)
          else
            (case verifyToken (jwt_verify E) now oldRefreshToken (REFRESH_TOKEN_SECRET E) of
               None \<Rightarrow> (Inl (reject 403 ''Invalid refresh token''), d)
             | Some result \<Rightarrow>
                 if \<not> valid result then
                   (Inl \<lparr>status = 403,
                         body = ErrorWithDetails ''Invalid or expired refresh token'' (error result),
                         cookies = []\<rparr>, d)
                 else
                   (case getRefreshToken (sha256 E) oldRefreshToken d of
                      (Inl e, d1) \<Rightarrow> (Inl (respond500 e), d1)
                    | (Inr None, d1) \<Rightarrow>
                        (Inl (reject 403 ''Refresh token not found or revoked''), d1)
                    | (Inr (Some storedToken), d1) \<Rightarrow>
                        (case item_expires_at storedToken of
                           None \<Rightarrow> (Inr (oldRefreshToken, payload result), d1)
                         | Some ex \<Rightarrow>
                             if ex < now then (Inl (reject 403 ''Refresh token expired''), d1)
                             else (Inr (oldRefreshToken, payload result), d1)))))"

definition refresh_rotate ::
  "env \<Rightarrow> time \<Rightarrow> string \<Rightarrow> string \<times> claims option \<Rightarrow> db \<Rightarrow> response \<times> db" where
  "refresh_rotate E now uuid checked d =
     (case checked of (oldRefreshToken, pl) \<Rightarrow>
        (case revokeRefreshToken (sha256 E) oldRefreshToken d of
           (revokedResult, d1) \<Rightarrow>
             (case pl of
                None \<Rightarrow> (respond500 TypeError, d1)
              | Some p \<Rightarrow>
                  (let accessToken = generateAccessToken (jwt_sign E) now (sub p, email p)
                                       (ACCESS_TOKEN_SECRET E) (ACCESS_TOKEN_EXPIRY E);
                       newRefreshToken = generateRefreshToken (jwt_sign E) now (sub p, email p)
                                           (REFRESH_TOKEN_SECRET E) (REFRESH_TOKEN_EXPIRY E)
                   in case createRefreshToken (sha256 E) uuid now (sub p) newRefreshToken d1 of
                        (Inl e, d2) \<Rightarrow> (respond500 e, d2)
                      | (Inr stored, d2) \<Rightarrow>
                          (\<lparr>status = 200, body = Success,
                            cookies = [(''accessToken'', accessToken),
                                       (''refreshToken'', newRefreshToken)]\<rparr>, d2)))))"

definition refresh_route ::
  "env \<Rightarrow> time \<Rightarrow> string \<Rightarrow> string option \<Rightarrow> db \<Rightarrow> response \<times> db" where
  "refresh_route E now uuid cookie d =
     (case refresh_check E now cookie d of
        (Inl res, d1) \<Rightarrow> (res, d1)
      | (Inr checked, d1) \<Rightarrow> refresh_rotate E now uuid checked d1)"

section \<open>Conditions on the store and sample data\<close>

text \<open>
  \<open>accepts f s n\<close>: the store accepts the \<open>n\<close> requests numbered from \<open>s\<close> on.
  \<open>requests_accepted d d'\<close>: it accepted every request sent between the states \<open>d\<close>
  and \<open>d'\<close>.
\<close>

fun accepts :: "(nat \<Rightarrow> string option) \<Rightarrow> nat \<Rightarrow> nat \<Rightarrow> bool" where
  "accepts f s 0 = True"
| "accepts f s (Suc n) = (f s = None \<and> accepts f (Suc s) n)"

definition requests_accepted :: "db \<Rightarrow> db \<Rightarrow> bool" where
  "requests_accepted d d' = accepts (fails d) (sends d) (sends d' - sends d)"

text \<open>
  The records of a user that are not revoked, and the condition that all records of the
  user are read in one page of a query.
\<close>

definition active_records :: "string \<Rightarrow> item list \<Rightarrow> token_record list" where
  "active_records u its = filter (\<lambda>r. revoked r = False) (user_records u its)"

definition one_page :: "db \<Rightarrow> string \<Rightarrow> bool" where
  "one_page d u = (length (user_records u (items d)) \<le> page d (user_records u (items d)))"

text \<open>What a successful \<^verbatim>\<open>SET revoked = true\<close> on each key of \<open>K\<close> does to a record.\<close>

definition mark_revoked :: "string set \<Rightarrow> token_record \<Rightarrow> token_record" where
  "mark_revoked K r = (if token_hash r \<in> K then r\<lparr>revoked := True\<rparr> else r)"

text \<open>The item stored under key \<open>k\<close> exists and is revoked.\<close>

definition revoked_at :: "string \<Rightarrow> item list \<Rightarrow> bool" where
  "revoked_at k its = (case tbl_get k its of None \<Rightarrow> False | Some it \<Rightarrow> item_revoked it)"

text \<open>Doubles of the library's verification, and stores, for the concrete runs below.\<close>

definition jwt_expired :: jwt_verify_fn where
  "jwt_expired now token secret = Inl (TokenExpiredError ''jwt expired'' 1000)"

definition jwt_broken :: jwt_verify_fn where
  "jwt_broken now token secret = Inl (OtherError ''SyntaxError'')"

definition jwt_ok :: jwt_verify_fn where
  "jwt_ok now token secret = Inr \<lparr>sub = ''u1'', email = ''a@x.com'', iat = 0, exp_at = 604800\<rparr>"

definition no_faults :: "nat \<Rightarrow> string option" where
  "no_faults n = None"

text \<open>Paging of a store whose page holds every item that matches, and of one whose page holds one.\<close>

definition whole_page :: "token_record list \<Rightarrow> nat" where
  "whole_page rs = length rs"

definition page_of_one :: "token_record list \<Rightarrow> nat" where
  "page_of_one rs = 1"

definition always_down :: "nat \<Rightarrow> string option" where
  "always_down n = Some ''ServiceUnavailable''"

definition third_fails :: "nat \<Rightarrow> string option" where
  "third_fails n = (if n = 2 then Some ''ProvisionedThroughputExceededException'' else None)"

text \<open>A stand-in for the digest in the concrete runs: the token itself.\<close>

definition id_digest :: "string \<Rightarrow> string" where
  "id_digest token = token"

definition rec_T1 :: token_record where
  "rec_T1 = \<lparr>rec_id = ''id1'', token_hash = ''T1'', user_id = ''u1'',
             expires_at = 604800000, ttl = 604800, revoked = False,
             created_at = 0, last_used_at = 0\<rparr>"

definition rec_T2 :: token_record where
  "rec_T2 = \<lparr>rec_id = ''id2'', token_hash = ''T2'', user_id = ''u1'',
             expires_at = 604805000, ttl = 604805, revoked = False,
             created_at = 5000, last_used_at = 5000\<rparr>"

definition db_active :: db where
  "db_active = \<lparr>items = [Full rec_T1], sends = 0, fails = no_faults, page = whole_page\<rparr>"

definition db_revoked :: db where
  "db_revoked = \<lparr>items = [Full (rec_T1\<lparr>revoked := True\<rparr>)], sends = 0, fails = no_faults,
                 page = whole_page\<rparr>"

definition db_down :: db where
  "db_down = \<lparr>items = [Full rec_T1], sends = 0, fails = always_down, page = whole_page\<rparr>"

definition db_two :: db where
  "db_two = \<lparr>items = [Full rec_T1, Full rec_T2], sends = 0, fails = no_faults, page = whole_page\<rparr>"

definition db_two_flaky :: db where
  "db_two_flaky = \<lparr>items = [Full rec_T1, Full rec_T2], sends = 0, fails = third_fails, page = whole_page\<rparr>"

text \<open>
  A double of \<^verbatim>\<open>jwt.sign\<close>: like the library, it is determined by the payload, the
  secret and the issue time in whole seconds.
\<close>

definition sign_double :: jwt_sign_fn where
  "sign_double now user secret expiry =
     secret @ ''.'' @ fst user @ ''.'' @ replicate (nat (now div 1000)) (CHR ''i'')"

definition env_ok :: env where
  "env_ok = \<lparr>sha256 = id_digest, jwt_verify = jwt_ok, jwt_sign = sign_double,
             ACCESS_TOKEN_SECRET = ''as'', REFRESH_TOKEN_SECRET = ''rs'',
             ACCESS_TOKEN_EXPIRY = ''15m'', REFRESH_TOKEN_EXPIRY = ''7d''\<rparr>"

definition env_expired :: env where
  "env_expired = \<lparr>sha256 = id_digest, jwt_verify = jwt_expired, jwt_sign = sign_double,
             ACCESS_TOKEN_SECRET = ''as'', REFRESH_TOKEN_SECRET = ''rs'',
             ACCESS_TOKEN_EXPIRY = ''15m'', REFRESH_TOKEN_EXPIRY = ''7d''\<rparr>"

text \<open>
  Two requests \<open>A\<close> and \<open>B\<close> carrying the same cookie, scheduled so that both have read
  the table before either writes: the check of \<open>A\<close> at \<open>tA\<close>, the check of \<open>B\<close> at
  \<open>tB\<close>, the rotation of \<open>A\<close> at \<open>tA'\<close>, the rotation of \<open>B\<close> at \<open>tB'\<close>. The result is
  the pair of their responses.
\<close>

definition refresh_race ::
  "env \<Rightarrow> time \<Rightarrow> time \<Rightarrow> time \<Rightarrow> time \<Rightarrow> string \<Rightarrow> string \<Rightarrow> string option \<Rightarrow> db \<Rightarrow>
     (response \<times> response) \<times> db" where
  "refresh_race E tA tB tA' tB' uuidA uuidB cookie d =
     (case refresh_check E tA cookie d of (a, d1) \<Rightarrow>
      case refresh_check E tB cookie d1 of (b, d2) \<Rightarrow>
      case (case a of Inl res \<Rightarrow> (res, d2) | Inr c \<Rightarrow> refresh_rotate E tA' uuidA c d2) of
        (ra, d3) \<Rightarrow>
      case (case b of Inl res \<Rightarrow> (res, d3) | Inr c \<Rightarrow> refresh_rotate E tB' uuidB c d3) of
        (rb, d4) \<Rightarrow> ((ra, rb), d4))"

text \<open>A store holding the record of a refresh token that \<open>sign_double\<close> issues at 1000 ms.\<close>

definition rec_R :: token_record where
  "rec_R = \<lparr>rec_id = ''id0'', token_hash = ''rs.u1.i'', user_id = ''u1'',
            expires_at = 604801000, ttl = 604801, revoked = False,
            created_at = 1000, last_used_at = 1000\<rparr>"

definition db_issued :: db where
  "db_issued = \<lparr>items = [Full rec_R], sends = 0, fails = no_faults, page = whole_page\<rparr>"

definition db_mixed :: db where
  "db_mixed = \<lparr>items = [Full (rec_T1\<lparr>revoked := True\<rparr>), Full rec_T2], sends = 0,
               fails = no_faults, page = whole_page\<rparr>"

definition jwt_bad_signature :: jwt_verify_fn where
  "jwt_bad_signature now token secret = Inl (JsonWebTokenError ''invalid signature'')"

text \<open>Seven active records of one user, in no particular order of creation.\<close>

definition mk_rec :: "string \<Rightarrow> time \<Rightarrow> token_record" where
  "mk_rec h t = \<lparr>rec_id = h, token_hash = h, user_id = ''u1'',
                 expires_at = t + 604800000, ttl = (t + 604800000) div 1000, revoked = False,
                 created_at = t, last_used_at = t\<rparr>"

definition db_seven :: db where
  "db_seven = \<lparr>items = map Full [mk_rec ''K3'' 3000, mk_rec ''K7'' 7000, mk_rec ''K1'' 1000,
                                   mk_rec ''K5'' 5000, mk_rec ''K2'' 2000, mk_rec ''K6'' 6000,
                                   mk_rec ''K4'' 4000],
               sends = 0, fails = no_faults, page = whole_page\<rparr>"

definition db_two_paged :: db where
  "db_two_paged = \<lparr>items = [Full rec_T1, Full rec_T2], sends = 0, fails = no_faults,
                   page = page_of_one\<rparr>"

section \<open>Facts about the store\<close>

lemma send_accepted:
  "fails d (sends d) = None \<Longrightarrow>
   send cmd d = (Inr (fst (cmd (items d))), d\<lparr>items := snd (cmd (items d)), sends := Suc (sends d)\<rparr>)"
  by (simp add: send_def split: prod.splits)

lemma send_rejected:
  "fails d (sends d) = Some c \<Longrightarrow> send cmd d = (Inl (StoreError c), d\<lparr>sends := Suc (sends d)\<rparr>)"
  by (simp add: send_def)

lemma send_fails [simp]: "fails (snd (send cmd d)) = fails d"
  by (simp add: send_def split: option.splits prod.splits)

lemma send_sends [simp]: "sends (snd (send cmd d)) = Suc (sends d)"
  by (simp add: send_def split: option.splits prod.splits)

lemma send_page [simp]: "page (snd (send cmd d)) = page d"
  by (simp add: send_def split: option.splits prod.splits)

lemma one_page_first_page:
  "one_page d u \<Longrightarrow> first_page (page d) (user_records u (items d)) = user_records u (items d)"
  by (simp add: one_page_def first_page_def)

lemma one_page_queried_active:
  "one_page d u \<Longrightarrow> queried_active (page d) u (items d) = active_records u (items d)"
  by (simp add: queried_active_def active_records_def one_page_first_page)

lemma send_cases:
  obtains (accepted) "fails d (sends d) = None"
      "send cmd d = (Inr (fst (cmd (items d))), d\<lparr>items := snd (cmd (items d)), sends := Suc (sends d)\<rparr>)"
  | (rejected) c where "fails d (sends d) = Some c"
      "send cmd d = (Inl (StoreError c), d\<lparr>sends := Suc (sends d)\<rparr>)"
  by (cases "fails d (sends d)") (auto simp: send_accepted send_rejected)

lemma send_all_sends [simp]: "sends (snd (send_all cs d)) = sends d + length cs"
proof (induction cs arbitrary: d)
  case Nil
  show ?case by simp
next
  case (Cons c cs)
  have "sends (snd (send_all cs (snd (send c d)))) = sends (snd (send c d)) + length cs"
    by (rule Cons.IH)
  then show ?case
    by (simp add: split_beta)
qed

lemma send_all_fails [simp]: "fails (snd (send_all cs d)) = fails d"
proof (induction cs arbitrary: d)
  case Nil
  show ?case by simp
next
  case (Cons c cs)
  have "fails (snd (send_all cs (snd (send c d)))) = fails (snd (send c d))"
    by (rule Cons.IH)
  then show ?case
    by (simp add: split_beta)
qed

lemma send_all_resolved:
  "(\<exists>as. promise_all (fst (send_all cs d)) = Inr as) = accepts (fails d) (sends d) (length cs)"
proof (induction cs arbitrary: d)
  case Nil
  show ?case by simp
next
  case (Cons c cs)
  let ?d1 = "snd (send c d)"
  have IH: "(\<exists>as. promise_all (fst (send_all cs ?d1)) = Inr as) =
            accepts (fails d) (Suc (sends d)) (length cs)"
    using Cons.IH [of ?d1] by simp
  show ?case
  proof (cases rule: send_cases [of d c])
    case accepted
    then show ?thesis
      using IH by (auto simp: split_beta split: sum.splits)
  next
    case (rejected e)
    then show ?thesis
      by (simp add: split_beta)
  qed
qed

lemma send_all_items:
  "accepts (fails d) (sends d) (length cs) \<Longrightarrow>
   items (snd (send_all cs d)) = fold (\<lambda>c its. snd (c its)) cs (items d)"
proof (induction cs arbitrary: d)
  case Nil
  show ?case by simp
next
  case (Cons c cs)
  let ?d1 = "d\<lparr>items := snd (c (items d)), sends := Suc (sends d)\<rparr>"
  have acc: "fails d (sends d) = None"
    using Cons.prems by simp
  have s: "send c d = (Inr (fst (c (items d))), ?d1)"
    using acc by (rule send_accepted)
  have "accepts (fails ?d1) (sends ?d1) (length cs)"
    using Cons.prems by simp
  then have "items (snd (send_all cs ?d1)) = fold (\<lambda>c its. snd (c its)) cs (items ?d1)"
    by (rule Cons.IH)
  then show ?case
    by (simp add: s split_beta)
qed

lemma send_all_cases:
  obtains (resolved) as where "accepts (fails d) (sends d) (length cs)"
      "promise_all (fst (send_all cs d)) = Inr as"
      "items (snd (send_all cs d)) = fold (\<lambda>c its. snd (c its)) cs (items d)"
  | (rejected) e where "\<not> accepts (fails d) (sends d) (length cs)"
      "promise_all (fst (send_all cs d)) = Inl e"
proof (cases "promise_all (fst (send_all cs d))")
  case (Inr as)
  then have "accepts (fails d) (sends d) (length cs)"
    using send_all_resolved [of cs d] by simp
  then show ?thesis
    using Inr send_all_items resolved by blast
next
  case (Inl e)
  then have "\<not> accepts (fails d) (sends d) (length cs)"
    using send_all_resolved [of cs d] by simp
  then show ?thesis
    using Inl rejected by blast
qed

lemma fold_UpdateRevoked:
  "fold (\<lambda>c its. snd (c its)) (map (\<lambda>t. UpdateRevoked (token_hash t)) ts) its =
   fold tbl_set_revoked (map token_hash ts) its"
  by (induction ts arbitrary: its) (simp_all add: UpdateRevoked_def)

lemma key_of_set_revoked [simp]: "key_of (set_revoked x) = key_of x"
  by (cases x) simp_all

lemma key_of_set_last_used [simp]: "key_of (set_last_used t x) = key_of x"
  by (cases x) simp_all

lemma set_revoked_fixed: "item_revoked x \<Longrightarrow> set_revoked x = x"
  by (cases x) simp_all

lemma item_revoked_set_revoked [simp]: "item_revoked (set_revoked x)"
  by (cases x) simp_all

lemma tbl_set_revoked_fixed:
  "tbl_get k its = Some x \<Longrightarrow> item_revoked x \<Longrightarrow> tbl_set_revoked k its = its"
  by (induction its) (auto simp: set_revoked_fixed)

lemma tbl_set_revoked_twice:
  "tbl_set_revoked k (tbl_set_revoked k its) = tbl_set_revoked k its"
  by (induction its) (auto simp: set_revoked_fixed)

lemma tbl_get_tbl_set_revoked:
  "tbl_get k' (tbl_set_revoked k its) =
     (if k' = k then Some (case tbl_get k its of None \<Rightarrow> Partial k (Some True) None
                           | Some x \<Rightarrow> set_revoked x)
      else tbl_get k' its)"
  by (induction its) auto

lemma keys_tbl_set_revoked:
  "map key_of (tbl_set_revoked k its) =
     (if k \<in> set (map key_of its) then map key_of its else map key_of its @ [k])"
  by (induction its) auto

lemma distinct_tbl_set_revoked:
  "distinct (map key_of its) \<Longrightarrow> distinct (map key_of (tbl_set_revoked k its))"
  by (simp add: keys_tbl_set_revoked)

lemma user_records_iff: "r \<in> set (user_records u its) = (Full r \<in> set its \<and> user_id r = u)"
  by (induction u its rule: user_records.induct) auto

lemma user_records_key: "r \<in> set (user_records u its) \<Longrightarrow> token_hash r \<in> set (map key_of its)"
  by (force simp: user_records_iff)

lemma user_records_fresh:
  "k \<notin> key_of ` set xs \<Longrightarrow> r \<in> set (user_records u xs) \<Longrightarrow> token_hash r \<noteq> k"
  using user_records_key [of r u xs] by auto

lemma distinct_user_records:
  "distinct (map key_of its) \<Longrightarrow> distinct (map token_hash (user_records u its))"
proof (induction u its rule: user_records.induct)
  case (1 u)
  show ?case by simp
next
  case (2 u r xs)
  have "token_hash r \<notin> token_hash ` set (user_records u xs)"
    using "2.prems" by (auto dest: user_records_fresh)
  then show ?case
    using 2 by simp
next
  case (3 u k rv lu xs)
  then show ?case by simp
qed

lemma mark_revoked_other:
  "\<forall>r\<in>set rs. token_hash r \<notin> K \<Longrightarrow> map (mark_revoked K) rs = rs"
  by (induction rs) (simp_all add: mark_revoked_def)

lemma user_records_tbl_set_revoked:
  "distinct (map key_of its) \<Longrightarrow>
   user_records u (tbl_set_revoked k its) = map (mark_revoked {k}) (user_records u its)"
proof (induction u its rule: user_records.induct)
  case (1 u)
  show ?case by simp
next
  case (2 u r xs)
  show ?case
  proof (cases "token_hash r = k")
    case True
    have "\<forall>r'\<in>set (user_records u xs). token_hash r' \<notin> {k}"
      using "2.prems" True by (auto dest: user_records_fresh)
    then have "map (mark_revoked {k}) (user_records u xs) = user_records u xs"
      by (rule mark_revoked_other)
    moreover have "mark_revoked {k} r = r\<lparr>revoked := True\<rparr>"
      using True by (simp add: mark_revoked_def)
    ultimately show ?thesis
      using True by simp
  next
    case False
    moreover have "mark_revoked {k} r = r"
      using False by (simp add: mark_revoked_def)
    ultimately show ?thesis
      using 2 by simp
  qed
next
  case (3 u k' rv lu xs)
  show ?case
  proof (cases "k' = k")
    case True
    have "\<forall>r'\<in>set (user_records u xs). token_hash r' \<notin> {k}"
      using "3.prems" True by (auto dest: user_records_fresh)
    then have "map (mark_revoked {k}) (user_records u xs) = user_records u xs"
      by (rule mark_revoked_other)
    then show ?thesis
      using True by simp
  next
    case False
    then show ?thesis
      using 3 by simp
  qed
qed

lemma mark_revoked_twice:
  "mark_revoked K (mark_revoked {k} r) = mark_revoked (insert k K) r"
  by (simp add: mark_revoked_def)

lemma user_records_fold_revoked:
  "distinct (map key_of its) \<Longrightarrow>
   user_records u (fold tbl_set_revoked ks its) = map (mark_revoked (set ks)) (user_records u its)"
proof (induction ks arbitrary: its)
  case Nil
  show ?case
    by (simp add: mark_revoked_other)
next
  case (Cons k ks)
  have d: "distinct (map key_of (tbl_set_revoked k its))"
    using Cons.prems by (rule distinct_tbl_set_revoked)
  have "user_records u (fold tbl_set_revoked ks (tbl_set_revoked k its)) =
        map (mark_revoked (set ks)) (user_records u (tbl_set_revoked k its))"
    using d by (rule Cons.IH)
  also have "\<dots> = map (mark_revoked (set ks)) (map (mark_revoked {k}) (user_records u its))"
    using Cons.prems by (simp add: user_records_tbl_set_revoked)
  also have "\<dots> = map (mark_revoked (insert k (set ks))) (user_records u its)"
    by (simp add: mark_revoked_twice)
  finally show ?case
    by simp
qed

lemma getRefreshToken_accepted:
  "fails d (sends d) = None \<Longrightarrow>
   getRefreshToken H token d =
     (Inr (case tbl_get (H token) (items d) of None \<Rightarrow> None
           | Some it \<Rightarrow> if item_revoked it then None else Some it),
      d\<lparr>sends := Suc (sends d)\<rparr>)"
  by (simp add: getRefreshToken_def send_accepted GetCommand_def split: option.splits)

lemma getRefreshToken_rejected:
  "fails d (sends d) = Some c \<Longrightarrow>
   getRefreshToken H token d = (Inl (StoreError c), d\<lparr>sends := Suc (sends d)\<rparr>)"
  by (simp add: getRefreshToken_def send_rejected)

lemma revokeRefreshToken_accepted:
  "fails d (sends d) = None \<Longrightarrow>
   revokeRefreshToken H token d =
     (Inr True, d\<lparr>items := tbl_set_revoked (H token) (items d), sends := Suc (sends d)\<rparr>)"
  by (simp add: revokeRefreshToken_def send_accepted UpdateRevoked_def)

lemma revokeRefreshToken_rejected:
  "fails d (sends d) = Some c \<Longrightarrow>
   revokeRefreshToken H token d = (Inr False, d\<lparr>sends := Suc (sends d)\<rparr>)"
  by (simp add: revokeRefreshToken_def send_rejected)






lemma js_slice_nonneg: "0 \<le> start \<Longrightarrow> js_slice start xs = drop (nat start) xs"
  by (simp add: js_slice_def)

lemma limitUserTokens_query_rejected:
  "fails d (sends d) = Some c \<Longrightarrow>
   limitUserTokens u maxTokens d = (Inl (StoreError c), d\<lparr>sends := Suc (sends d)\<rparr>)"
  by (simp add: limitUserTokens_def send_rejected)

lemma limitUserTokens_below:
  assumes "fails d (sends d) = None"
    and "int (length (queried_active (page d) u (items d))) < maxTokens"
  shows "limitUserTokens u maxTokens d = (Inr 0, d\<lparr>sends := Suc (sends d)\<rparr>)"
  using assms
  by (simp add: limitUserTokens_def send_accepted QueryUserActive_def sort_newest_first_def)

lemma limitUserTokens_at_or_above:
  assumes "fails d (sends d) = None"
    and "maxTokens \<le> int (length (queried_active (page d) u (items d)))"
  shows "limitUserTokens u maxTokens d =
     (case promise_all (fst (send_all (map (\<lambda>t. UpdateRevoked (token_hash t))
               (js_slice (maxTokens - 1) (sort_newest_first (queried_active (page d) u (items d)))))
               (d\<lparr>sends := Suc (sends d)\<rparr>))) of
        Inl e \<Rightarrow> Inl e
      | Inr done \<Rightarrow> Inr (length (js_slice (maxTokens - 1)
                               (sort_newest_first (queried_active (page d) u (items d))))),
      snd (send_all (map (\<lambda>t. UpdateRevoked (token_hash t))
               (js_slice (maxTokens - 1) (sort_newest_first (queried_active (page d) u (items d)))))
               (d\<lparr>sends := Suc (sends d)\<rparr>)))"
  using assms
  by (simp add: limitUserTokens_def send_accepted QueryUserActive_def sort_newest_first_def
                split_beta Let_def split: sum.splits)

lemma active_after_marking:
  "filter (\<lambda>r. revoked r = False) (map (mark_revoked K) rs) =
   filter (\<lambda>r. token_hash r \<notin> K) (filter (\<lambda>r. revoked r = False) rs)"
  by (induction rs) (simp_all add: mark_revoked_def)

lemma filter_keeps_front:
  assumes "distinct (map g ts)"
  shows "filter (\<lambda>r. g r \<notin> g ` set (drop m ts)) ts = take m ts"
proof -
  have "distinct (map g (take m ts @ drop m ts))"
    using assms by simp
  then have disj: "g ` set (take m ts) \<inter> g ` set (drop m ts) = {}"
    unfolding map_append distinct_append by simp
  have front: "filter (\<lambda>r. g r \<notin> g ` set (drop m ts)) (take m ts) = take m ts"
    using disj by (auto simp: filter_id_conv)
  have rest: "filter (\<lambda>r. g r \<notin> g ` set (drop m ts)) (drop m ts) = []"
    by (auto simp: filter_empty_conv)
  have "filter (\<lambda>r. g r \<notin> g ` set (drop m ts)) (take m ts @ drop m ts) = take m ts"
    unfolding filter_append front rest by simp
  then show ?thesis
    by simp
qed

lemma distinct_hash_sorted:
  "distinct (map token_hash rs) \<Longrightarrow> distinct (map token_hash (sort_key f rs))"
  by (simp add: distinct_map)

lemma distinct_hash_active:
  "distinct (map key_of its) \<Longrightarrow> distinct (map token_hash (active_records u its))"
  unfolding active_records_def
  using distinct_user_records [of its u] by (simp add: distinct_map_filter)

lemma limitUserTokens_sends:
  "sends (snd (limitUserTokens u maxTokens d)) =
     Suc (sends d) +
     (if fails d (sends d) = None \<and> maxTokens \<le> int (length (queried_active (page d) u (items d)))
      then length (js_slice (maxTokens - 1) (sort_newest_first (queried_active (page d) u (items d))))
      else 0)"
proof (cases "fails d (sends d)")
  case (Some c)
  then show ?thesis
    by (simp add: limitUserTokens_query_rejected)
next
  case None
  show ?thesis
  proof (cases "maxTokens \<le> int (length (queried_active (page d) u (items d)))")
    case True
    show ?thesis
      using None True by (simp add: limitUserTokens_at_or_above [OF None True])
  next
    case False
    then have "int (length (queried_active (page d) u (items d))) < maxTokens"
      by simp
    then show ?thesis
      using None False by (simp add: limitUserTokens_below)
  qed
qed

lemma requests_accepted_first:
  "requests_accepted d d' \<Longrightarrow> sends d < sends d' \<Longrightarrow> fails d (sends d) = None"
  by (cases "sends d' - sends d") (simp_all add: requests_accepted_def)

lemma sorted_newest_first:
  "sorted_wrt (\<lambda>a b. created_at b \<le> created_at a) (sort_newest_first rs)"
proof -
  have "sorted (map (\<lambda>t. - created_at t) (sort_key (\<lambda>t. - created_at t) rs))"
    by (rule sorted_sort_key)
  then show ?thesis
    by (simp add: sorted_map sort_newest_first_def)
qed

lemma limitUserTokens_revokes_tail:
  assumes keys: "distinct (map key_of (items d))"
    and pos: "1 \<le> maxTokens"
    and ok: "requests_accepted d (snd (limitUserTokens u maxTokens d))"
    and enough: "maxTokens \<le> int (length (queried_active (page d) u (items d)))"
  shows "fst (limitUserTokens u maxTokens d) =
           Inr (length (drop (nat (maxTokens - 1)) (sort_newest_first (queried_active (page d) u (items d)))))"
    and "user_records u (items (snd (limitUserTokens u maxTokens d))) =
           map (mark_revoked (token_hash ` set (drop (nat (maxTokens - 1))
                   (sort_newest_first (queried_active (page d) u (items d))))))
               (user_records u (items d))"
proof -
  define tokens where "tokens = sort_newest_first (queried_active (page d) u (items d))"
  define gone where "gone = drop (nat (maxTokens - 1)) tokens"
  define cs where "cs = map (\<lambda>t. UpdateRevoked (token_hash t)) gone"
  define d1 where "d1 = d\<lparr>sends := Suc (sends d)\<rparr>"
  have slice: "js_slice (maxTokens - 1) tokens = gone"
    using pos by (simp add: js_slice_nonneg gone_def)
  have first: "fails d (sends d) = None"
    using ok by (rule requests_accepted_first) (simp add: limitUserTokens_sends)
  have run: "limitUserTokens u maxTokens d =
     (case promise_all (fst (send_all cs d1)) of Inl e \<Rightarrow> Inl e
      | Inr done \<Rightarrow> Inr (length gone), snd (send_all cs d1))"
    using limitUserTokens_at_or_above [OF first enough]
    unfolding cs_def d1_def slice [unfolded tokens_def, symmetric] by simp
  have "sends (snd (limitUserTokens u maxTokens d)) - sends d = Suc (length cs)"
    using first enough
    by (simp add: limitUserTokens_sends slice [unfolded tokens_def] cs_def)
  then have acc: "accepts (fails d1) (sends d1) (length cs)"
    using ok first by (simp add: requests_accepted_def d1_def)
  show "fst (limitUserTokens u maxTokens d) =
           Inr (length (drop (nat (maxTokens - 1)) (sort_newest_first (queried_active (page d) u (items d)))))"
  proof (cases rule: send_all_cases [of d1 cs])
    case (resolved as)
    then show ?thesis
      by (simp add: run gone_def tokens_def)
  next
    case (rejected e)
    then show ?thesis
      using acc by simp
  qed
  show "user_records u (items (snd (limitUserTokens u maxTokens d))) =
           map (mark_revoked (token_hash ` set (drop (nat (maxTokens - 1))
                   (sort_newest_first (queried_active (page d) u (items d))))))
               (user_records u (items d))"
  proof (cases rule: send_all_cases [of d1 cs])
    case (resolved as)
    have "items (snd (limitUserTokens u maxTokens d)) =
          fold tbl_set_revoked (map token_hash gone) (items d)"
      using resolved(3) by (simp add: run cs_def fold_UpdateRevoked d1_def)
    then show ?thesis
      using keys by (simp add: user_records_fold_revoked gone_def tokens_def)
  next
    case (rejected e)
    then show ?thesis
      using acc by simp
  qed
qed

lemmas sample_defs = db_seven_def mk_rec_def db_two_def db_two_flaky_def db_active_def db_revoked_def
  db_down_def db_issued_def db_mixed_def rec_T1_def rec_T2_def rec_R_def id_digest_def no_faults_def
  always_down_def third_fails_def whole_page_def page_of_one_def db_two_paged_def

lemmas op_defs = send_def PutCommand_def GetCommand_def UpdateRevoked_def UpdateLastUsed_def
  QueryUser_def QueryUserActive_def first_page_def queried_active_def active_records_def
  sort_newest_first_def js_slice_def









section \<open>What every operation keeps\<close>

text \<open>
  Distinct keys are an invariant of the table: it holds of the empty table and every
  operation of the repository keeps it.
\<close>

lemma send_keeps:
  assumes "\<And>its. P its \<Longrightarrow> P (snd (cmd its))" and "P (items d)"
  shows "P (items (snd (send cmd d)))"
  using assms by (cases rule: send_cases [of d cmd]) simp_all

lemma send_all_keeps:
  assumes "\<And>c its. c \<in> set cs \<Longrightarrow> P its \<Longrightarrow> P (snd (c its))" and "P (items d)"
  shows "P (items (snd (send_all cs d)))"
  using assms
proof (induction cs arbitrary: d)
  case Nil
  then show ?case by simp
next
  case (Cons c cs)
  have "P (items (snd (send c d)))"
    using Cons.prems by (intro send_keeps [where P = P and cmd = c]) simp_all
  then have "P (items (snd (send_all cs (snd (send c d)))))"
    using Cons.prems(1) by (intro Cons.IH [where d = "snd (send c d)"]) simp_all
  then show ?case
    by (simp add: split_beta)
qed

lemma item_revoked_set_last_used [simp]: "item_revoked (set_last_used t x) = item_revoked x"
  by (cases x) simp_all

lemma tbl_get_tbl_set_last_used:
  "tbl_get k' (tbl_set_last_used k t its) =
     (if k' = k then Some (case tbl_get k its of None \<Rightarrow> Partial k None (Some t)
                           | Some x \<Rightarrow> set_last_used t x)
      else tbl_get k' its)"
  by (induction its) auto

lemma revoked_at_tbl_set_revoked:
  "revoked_at k its \<Longrightarrow> revoked_at k (tbl_set_revoked k' its)"
  by (auto simp: revoked_at_def tbl_get_tbl_set_revoked split: option.splits)

lemma revoked_at_tbl_set_last_used:
  "revoked_at k its \<Longrightarrow> revoked_at k (tbl_set_last_used k' t its)"
  by (auto simp: revoked_at_def tbl_get_tbl_set_last_used split: option.splits)

lemma updates_keep:
  assumes rv: "\<And>k its. P its \<Longrightarrow> P (tbl_set_revoked k its)"
    and lu: "\<And>k t its. P its \<Longrightarrow> P (tbl_set_last_used k t its)"
    and P: "P (items d)"
  shows "P (items (snd (getRefreshToken H token d)))"
    and "P (items (snd (updateRefreshTokenLastUsed H now token d)))"
    and "P (items (snd (revokeRefreshToken H token d)))"
    and "P (items (snd (revokeAllUserTokens u d)))"
    and "P (items (snd (limitUserTokens u maxTokens d)))"
proof -
  have get: "P (items (snd (send (GetCommand k') d')))" if "P (items d')" for k' d'
    using that by (intro send_keeps [where P = P and cmd = "GetCommand k'"]) (simp_all add: GetCommand_def)
  have upd: "P (items (snd (send (UpdateRevoked k') d')))" if "P (items d')" for k' d'
    using that by (intro send_keeps [where P = P and cmd = "UpdateRevoked k'"]) (simp_all add: UpdateRevoked_def rv)
  have touch: "P (items (snd (send (UpdateLastUsed k' t) d')))" if "P (items d')" for k' t d'
    using that by (intro send_keeps [where P = P and cmd = "UpdateLastUsed k' t"]) (simp_all add: UpdateLastUsed_def lu)
  have bulk: "P (items (snd (send_all (map (\<lambda>t. UpdateRevoked (token_hash t)) ts) d')))"
    if "P (items d')" for ts d'
    using that
    by (intro send_all_keeps [where P = P and cs = "map (\<lambda>t. UpdateRevoked (token_hash t)) ts"])
       (auto simp: UpdateRevoked_def rv)
  have q1: "P (items (snd (send (QueryUser (page d) u) d)))"
    using P by (intro send_keeps [where P = P and cmd = "QueryUser (page d) u"]) (simp_all add: QueryUser_def)
  have q2: "P (items (snd (send (QueryUserActive (page d) u) d)))"
    using P by (intro send_keeps [where P = P and cmd = "QueryUserActive (page d) u"]) (simp_all add: QueryUserActive_def)
  show "P (items (snd (getRefreshToken H token d)))"
    using get [OF P, of "H token"]
    by (simp add: getRefreshToken_def split_beta split: sum.splits option.splits)
  show "P (items (snd (updateRefreshTokenLastUsed H now token d)))"
    using touch [OF P, of "H token" now]
    by (simp add: updateRefreshTokenLastUsed_def split_beta split: sum.splits)
  show "P (items (snd (revokeRefreshToken H token d)))"
    using upd [OF P, of "H token"]
    by (simp add: revokeRefreshToken_def split_beta split: sum.splits)
  show "P (items (snd (revokeAllUserTokens u d)))"
  proof (cases "fst (send (QueryUser (page d) u) d)")
    case (Inl e)
    then show ?thesis
      using q1 by (simp add: revokeAllUserTokens_def split_beta)
  next
    case (Inr tokens)
    then show ?thesis
      using bulk [OF q1, of "filter (\<lambda>t. \<not> revoked t) tokens"]
      by (simp add: revokeAllUserTokens_def split_beta split: sum.splits)
  qed
  show "P (items (snd (limitUserTokens u maxTokens d)))"
  proof (cases "fst (send (QueryUserActive (page d) u) d)")
    case (Inl e)
    then show ?thesis
      using q2 by (simp add: limitUserTokens_def split_beta)
  next
    case (Inr queried)
    then show ?thesis
      using q2 bulk [OF q2, of "js_slice (maxTokens - 1) (sort_newest_first queried)"]
      by (simp add: limitUserTokens_def Let_def split_beta split: sum.splits)
  qed
qed

lemma keys_tbl_put:
  "map key_of (tbl_put it its) =
     (if key_of it \<in> set (map key_of its) then map key_of its else map key_of its @ [key_of it])"
  by (induction its) auto

lemma keys_tbl_set_last_used:
  "map key_of (tbl_set_last_used k t its) =
     (if k \<in> set (map key_of its) then map key_of its else map key_of its @ [k])"
  by (induction its) auto

lemma distinct_tbl_set_last_used:
  "distinct (map key_of its) \<Longrightarrow> distinct (map key_of (tbl_set_last_used k t its))"
  by (simp add: keys_tbl_set_last_used)

lemma distinct_tbl_put:
  "distinct (map key_of its) \<Longrightarrow> distinct (map key_of (tbl_put it its))"
  by (simp add: keys_tbl_put)

lemma keys_stay_distinct:
  assumes "distinct (map key_of (items d))"
  shows "distinct (map key_of (items (snd (getRefreshToken H token d))))"
    and "distinct (map key_of (items (snd (updateRefreshTokenLastUsed H now token d))))"
    and "distinct (map key_of (items (snd (revokeRefreshToken H token d))))"
    and "distinct (map key_of (items (snd (revokeAllUserTokens u d))))"
    and "distinct (map key_of (items (snd (limitUserTokens u maxTokens d))))"
proof -
  note keep = updates_keep [where P = "\<lambda>its. distinct (map key_of its)",
                              OF distinct_tbl_set_revoked distinct_tbl_set_last_used assms]
  show "distinct (map key_of (items (snd (getRefreshToken H token d))))"
    by (rule keep(1))
  show "distinct (map key_of (items (snd (updateRefreshTokenLastUsed H now token d))))"
    by (rule keep(2))
  show "distinct (map key_of (items (snd (revokeRefreshToken H token d))))"
    by (rule keep(3))
  show "distinct (map key_of (items (snd (revokeAllUserTokens u d))))"
    by (rule keep(4))
  show "distinct (map key_of (items (snd (limitUserTokens u maxTokens d))))"
    by (rule keep(5))
qed

section \<open>Facts about the refresh handler\<close>

lemma status_reject [simp]: "status (reject c m) = c"
  by (simp add: reject_def)

lemma status_respond500 [simp]: "status (respond500 e) = 500"
  by (simp add: respond500_def)

lemma tbl_get_tbl_put:
  "tbl_get k (tbl_put it its) = (if k = key_of it then Some it else tbl_get k its)"
  by (induction its) auto

lemma createRefreshToken_accepted:
  "fails d (sends d) = None \<Longrightarrow>
   createRefreshToken H uuid now userId token d =
     (Inr \<lparr>rec_id = uuid, token_hash = H token, user_id = userId,
            expires_at = now + 7 * 24 * 60 * 60 * 1000,
            ttl = (now + 7 * 24 * 60 * 60 * 1000) div 1000, revoked = False,
            created_at = now, last_used_at = now\<rparr>,
      d\<lparr>items := tbl_put (Full \<lparr>rec_id = uuid, token_hash = H token, user_id = userId,
            expires_at = now + 7 * 24 * 60 * 60 * 1000,
            ttl = (now + 7 * 24 * 60 * 60 * 1000) div 1000, revoked = False,
            created_at = now, last_used_at = now\<rparr>) (items d),
        sends := Suc (sends d)\<rparr>)"
  by (simp add: createRefreshToken_def Let_def send_accepted PutCommand_def)

lemma createRefreshToken_rejected:
  "fails d (sends d) = Some c \<Longrightarrow>
   createRefreshToken H uuid now userId token d = (Inl (StoreError c), d\<lparr>sends := Suc (sends d)\<rparr>)"
  by (simp add: createRefreshToken_def Let_def send_rejected)

text \<open>What the check of the handler has established when it hands on.\<close>

lemma refresh_check_passed:
  assumes "refresh_check E now cookie d = (Inr (t, pl), d1)"
  shows "cookie = Some t \<and> t \<noteq> [] \<and>
         (\<exists>res. verifyToken (jwt_verify E) now t (REFRESH_TOKEN_SECRET E) = Some res \<and>
                valid res \<and> pl = payload res) \<and>
         fails d (sends d) = None \<and> d1 = d\<lparr>sends := Suc (sends d)\<rparr> \<and>
         (\<exists>it. tbl_get (sha256 E t) (items d) = Some it \<and> \<not> item_revoked it)"
proof (cases "fails d (sends d)")
  case None
  show ?thesis
    using assms None
    by (auto simp: refresh_check_def getRefreshToken_accepted [OF None]
             split: option.splits if_splits)
next
  case (Some c)
  show ?thesis
    using assms
    by (auto simp: refresh_check_def getRefreshToken_rejected [OF Some]
             split: option.splits if_splits)
qed

lemma refresh_check_answer_status:
  "refresh_check E now cookie d = (Inl res, d1) \<Longrightarrow> status res \<noteq> 200"
proof (cases "fails d (sends d)")
  case None
  assume "refresh_check E now cookie d = (Inl res, d1)"
  then show ?thesis
    by (auto simp: refresh_check_def getRefreshToken_accepted [OF None]
             split: option.splits if_splits)
next
  case (Some c)
  assume "refresh_check E now cookie d = (Inl res, d1)"
  then show ?thesis
    by (auto simp: refresh_check_def getRefreshToken_rejected [OF Some]
             split: option.splits if_splits)
qed

lemma refresh_check_revoked:
  assumes "tbl_get (sha256 E tok) (items d) = Some it" and "item_revoked it"
  shows "\<exists>res. fst (refresh_check E now (Some tok) d) = Inl res \<and> status res \<noteq> 200"
proof (cases "fst (refresh_check E now (Some tok) d)")
  case (Inl res)
  then have "refresh_check E now (Some tok) d = (Inl res, snd (refresh_check E now (Some tok) d))"
    by (simp add: prod_eq_iff)
  then have "status res \<noteq> 200"
    by (rule refresh_check_answer_status)
  then show ?thesis
    using Inl by simp
next
  case (Inr c)
  then have "refresh_check E now (Some tok) d = (Inr (fst c, snd c), snd (refresh_check E now (Some tok) d))"
    by (simp add: prod_eq_iff)
  from refresh_check_passed [OF this] show ?thesis
    using assms by auto
qed

lemma refresh_rotate_success:
  assumes "refresh_rotate E now uuid (t, pl) dc = (r, d1)" and "status r = 200"
  shows "\<exists>p stored. pl = Some p \<and>
           createRefreshToken (sha256 E) uuid now (sub p)
             (generateRefreshToken (jwt_sign E) now (sub p, email p)
                (REFRESH_TOKEN_SECRET E) (REFRESH_TOKEN_EXPIRY E))
             (snd (revokeRefreshToken (sha256 E) t dc)) = (Inr stored, d1) \<and>
           map_of (cookies r) ''refreshToken'' =
             Some (generateRefreshToken (jwt_sign E) now (sub p, email p)
                     (REFRESH_TOKEN_SECRET E) (REFRESH_TOKEN_EXPIRY E))"
  using assms
  by (auto simp: refresh_rotate_def Let_def split: option.splits prod.splits sum.splits)

lemma revokeRefreshToken_sends [simp]:
  "sends (snd (revokeRefreshToken H t d)) = Suc (sends d)"
  "fails (snd (revokeRefreshToken H t d)) = fails d"
  by (cases "fails d (sends d)";
      simp add: revokeRefreshToken_accepted revokeRefreshToken_rejected)+

lemma createRefreshToken_sends [simp]:
  "sends (snd (createRefreshToken H uuid now u t d)) = Suc (sends d)"
  "fails (snd (createRefreshToken H uuid now u t d)) = fails d"
  by (cases "fails d (sends d)";
      simp add: createRefreshToken_accepted createRefreshToken_rejected)+

lemma refresh_route_revoked:
  assumes "tbl_get (sha256 E tok) (items d) = Some it" and "item_revoked it"
  shows "status (fst (refresh_route E now uuid (Some tok) d)) \<noteq> 200"
proof -
  obtain res where "fst (refresh_check E now (Some tok) d) = Inl res" and "status res \<noteq> 200"
    using refresh_check_revoked [OF assms] by blast
  then show ?thesis
    by (simp add: refresh_route_def split_beta)
qed

lemma refresh_route_revoked_403:
  assumes "tbl_get (sha256 E tok) (items d) = Some it" and "item_revoked it"
    and "tok \<noteq> []" and "fails d (sends d) = None"
    and "verifyToken (jwt_verify E) now tok (REFRESH_TOKEN_SECRET E) = Some res" and "valid res"
  shows "fst (refresh_route E now uuid (Some tok) d) =
           reject 403 ''Refresh token not found or revoked''"
  using assms
  by (simp add: refresh_route_def refresh_check_def getRefreshToken_accepted)

lemmas route_sample_defs = env_ok_def env_expired_def jwt_ok_def jwt_expired_def sign_double_def

lemmas route_defs = refresh_route_def refresh_check_def refresh_rotate_def verifyToken_def
  getRefreshToken_def revokeRefreshToken_def createRefreshToken_def
  generateAccessToken_def generateRefreshToken_def Let_def

lemma keys_stay_distinct_create:
  assumes "distinct (map key_of (items d))"
  shows "distinct (map key_of (items (snd (createRefreshToken H uuid now userId token d))))"
proof (cases "fails d (sends d)")
  case None
  show ?thesis
    unfolding createRefreshToken_accepted [OF None] using assms
    by (simp add: distinct_tbl_put)
next
  case (Some c)
  show ?thesis
    unfolding createRefreshToken_rejected [OF Some] using assms by simp
qed

section \<open>The authentication middleware\<close>

text \<open>
  Claim C10. \<^verbatim>\<open>authenticateRequest\<close> reads \<^verbatim>\<open>result.valid\<close> before it tests
  \<^verbatim>\<open>result\<close> for \<^verbatim>\<open>null\<close>. For a bearer header, it throws a \<open>TypeError\<close>
  exactly when \<^verbatim>\<open>verifyToken\<close> returns \<^verbatim>\<open>null\<close>, which is exactly when the library threw
  an error that is none of \<open>TokenExpiredError\<close>, \<open>JsonWebTokenError\<close>, \<open>NotBeforeError\<close>;
  so no 401 or 403 is answered for such a token, and the 403 of the invalid-token branch
  is only ever answered for a result that is not \<^verbatim>\<open>null\<close> and has \<open>valid = False\<close>.
\<close>

theorem authenticateRequest_null_result:
  assumes "js_or authorization Authorization = Some authHeader"
    and "take 7 authHeader = ''Bearer ''"
  shows "((authenticateRequest jv secret now authorization Authorization = Inl TypeError)
            = (verifyToken jv now (drop 7 authHeader) secret = None)) \<and>
         ((verifyToken jv now (drop 7 authHeader) secret = None)
            = (\<exists>c. jv now (drop 7 authHeader) secret = Inl (OtherError c))) \<and>
         (\<forall>r. authenticateRequest jv secret now authorization Authorization = Inr (Responded r)
                \<and> status r = 403 \<longrightarrow>
              (\<exists>res. verifyToken jv now (drop 7 authHeader) secret = Some res \<and>
                     valid res = False))"
  using assms
  by (auto simp: authenticateRequest_def verifyToken_def
           split: option.splits sum.splits jwt_thrown.splits if_splits)

theorem authenticateRequest_null_result_witness:
  "js_or (Some ''Bearer abc'') None = Some ''Bearer abc'' \<and>
   take 7 ''Bearer abc'' = ''Bearer '' \<and>
   verifyToken jwt_broken 0 (drop 7 ''Bearer abc'') ''k'' = None \<and>
   authenticateRequest jwt_broken ''k'' 0 (Some ''Bearer abc'') None = Inl TypeError \<and>
   authenticateRequest jwt_bad_signature ''k'' 0 (Some ''Bearer abc'') None =
     Inr (Responded \<lparr>status = 403,
            body = ErrorObject (Some \<lparr>errorName = ''JsonWebTokenError'',
                     errorMessage = ''invalid signature'', expiredAt = None, date = Some 0\<rparr>),
            cookies = []\<rparr>) \<and>
   verifyToken jwt_bad_signature 0 (drop 7 ''Bearer abc'') ''k'' =
     Some \<lparr>valid = False, payload = None,
           error = Some \<lparr>errorName = ''JsonWebTokenError'', errorMessage = ''invalid signature'',
                         expiredAt = None, date = Some 0\<rparr>\<rparr>"
  using authenticateRequest_null_result
          [of "Some ''Bearer abc''" None "''Bearer abc''" jwt_broken "''k''" 0]
        authenticateRequest_null_result
          [of "Some ''Bearer abc''" None "''Bearer abc''" jwt_bad_signature "''k''" 0]
  by (simp add: js_or_def verifyToken_def jwt_broken_def jwt_bad_signature_def
                authenticateRequest_def)

section \<open>The codec\<close>




section \<open>The repository, one record at a time\<close>

text \<open>
  Claim C2 fails as stated: \<^verbatim>\<open>getRefreshToken\<close> does not read \<open>expires_at\<close>. A record
  that is not revoked is returned although its \<open>expires_at\<close> lies before the clock; the
  comparison with the clock is made by the refresh handler on the record it got back.
\<close>

theorem getRefreshToken_returns_expired:
  "expires_at rec_T1 < 700000000 \<and> revoked rec_T1 = False \<and>
   fst (getRefreshToken id_digest ''T1'' db_active) = Inr (Some (Full rec_T1))"
  by (simp add: getRefreshToken_def send_def GetCommand_def db_active_def rec_T1_def
                id_digest_def no_faults_def)

text \<open>
  Claim C2, amended. When the store answers the read, \<^verbatim>\<open>getRefreshToken\<close> returns none
  exactly when no item is stored under the hash of the token or the stored item is
  revoked; an item that is stored and not revoked is returned whatever its \<open>expires_at\<close>;
  the table is left as it was.
\<close>

theorem getRefreshToken_absent_or_revoked:
  assumes "fails d (sends d) = None"
  shows "((fst (getRefreshToken H token d) = Inr None) =
           (tbl_get (H token) (items d) = None \<or>
            (\<exists>it. tbl_get (H token) (items d) = Some it \<and> item_revoked it))) \<and>
         (\<forall>it. tbl_get (H token) (items d) = Some it \<and> \<not> item_revoked it \<longrightarrow>
               fst (getRefreshToken H token d) = Inr (Some it)) \<and>
         items (snd (getRefreshToken H token d)) = items d"
  using assms by (auto simp: getRefreshToken_accepted split: option.splits)

theorem getRefreshToken_absent_or_revoked_witness:
  "fails db_revoked (sends db_revoked) = None \<and>
   tbl_get (id_digest ''T1'') (items db_revoked) = Some (Full (rec_T1\<lparr>revoked := True\<rparr>)) \<and>
   fst (getRefreshToken id_digest ''T1'' db_revoked) = Inr None \<and>
   tbl_get (id_digest ''T1'') (items db_active) = Some (Full rec_T1) \<and>
   \<not> item_revoked (Full rec_T1) \<and>
   fst (getRefreshToken id_digest ''T1'' db_active) = Inr (Some (Full rec_T1))"
  using getRefreshToken_absent_or_revoked [of db_revoked id_digest "''T1''"]
        getRefreshToken_absent_or_revoked [of db_active id_digest "''T1''"]
  by (simp add: db_revoked_def db_active_def rec_T1_def id_digest_def no_faults_def)

text \<open>
  Claim C7 fails as stated: \<^verbatim>\<open>revokeRefreshToken\<close> returns \<^verbatim>\<open>true\<close> whenever the
  store accepts the update, also for a token that is already revoked and for one the
  table does not hold; in the second case the unconditional update adds an item under
  the hash of the token.
\<close>

theorem revokeRefreshToken_true_when_revoked_or_unknown:
  "tbl_get (id_digest ''T1'') (items db_revoked) = Some (Full (rec_T1\<lparr>revoked := True\<rparr>)) \<and>
   fst (revokeRefreshToken id_digest ''T1'' db_revoked) = Inr True \<and>
   tbl_get (id_digest ''T9'') (items db_active) = None \<and>
   fst (revokeRefreshToken id_digest ''T9'' db_active) = Inr True \<and>
   items (snd (revokeRefreshToken id_digest ''T9'' db_active)) =
     [Full rec_T1, Partial ''T9'' (Some True) None]"
  by (simp add: revokeRefreshToken_def sample_defs op_defs)

text \<open>
  Claim C7, amended. \<^verbatim>\<open>revokeRefreshToken\<close> never throws: it returns \<^verbatim>\<open>true\<close> exactly
  when the store accepts the update (also for an already revoked or unknown token) and
  \<^verbatim>\<open>false\<close> exactly when the store rejects it. On a token whose item is already revoked
  the table is left as it was, and once a call has been accepted a second call with the
  same token changes the table no further.
\<close>

theorem revokeRefreshToken_returns_acceptance:
  "fst (revokeRefreshToken H token d) = Inr (fails d (sends d) = None) \<and>
   ((\<exists>it. tbl_get (H token) (items d) = Some it \<and> item_revoked it) \<longrightarrow>
      items (snd (revokeRefreshToken H token d)) = items d) \<and>
   (fails d (sends d) = None \<longrightarrow>
      items (snd (revokeRefreshToken H token (snd (revokeRefreshToken H token d)))) =
      items (snd (revokeRefreshToken H token d)))"
proof (cases "fails d (sends d)")
  case None
  let ?d1 = "d\<lparr>items := tbl_set_revoked (H token) (items d), sends := Suc (sends d)\<rparr>"
  have first: "revokeRefreshToken H token d = (Inr True, ?d1)"
    using None by (rule revokeRefreshToken_accepted)
  have again: "items (snd (revokeRefreshToken H token ?d1)) = items ?d1"
  proof (cases "fails ?d1 (sends ?d1)")
    case None
    then show ?thesis
      by (simp add: revokeRefreshToken_accepted tbl_set_revoked_twice)
  next
    case (Some c)
    then show ?thesis
      by (simp add: revokeRefreshToken_rejected)
  qed
  show ?thesis
    using None again by (auto simp: first tbl_set_revoked_fixed)
next
  case (Some c)
  then show ?thesis
    by (simp add: revokeRefreshToken_rejected)
qed

theorem revokeRefreshToken_returns_acceptance_witness:
  "tbl_get (id_digest ''T1'') (items db_revoked) = Some (Full (rec_T1\<lparr>revoked := True\<rparr>)) \<and>
   item_revoked (Full (rec_T1\<lparr>revoked := True\<rparr>)) \<and>
   fails db_revoked (sends db_revoked) = None \<and>
   fst (revokeRefreshToken id_digest ''T1'' db_revoked) = Inr True \<and>
   items (snd (revokeRefreshToken id_digest ''T1'' db_revoked)) = items db_revoked \<and>
   fails db_active (sends db_active) = None \<and>
   items (snd (revokeRefreshToken id_digest ''T1''
                 (snd (revokeRefreshToken id_digest ''T1'' db_active)))) =
     items (snd (revokeRefreshToken id_digest ''T1'' db_active)) \<and>
   fst (revokeRefreshToken id_digest ''T1'' db_down) = Inr False"
  using revokeRefreshToken_returns_acceptance [of id_digest "''T1''" db_revoked]
        revokeRefreshToken_returns_acceptance [of id_digest "''T1''" db_active]
        revokeRefreshToken_returns_acceptance [of id_digest "''T1''" db_down]
  by (simp add: sample_defs)

section \<open>The repository, all records of a user\<close>




text \<open>
  The count that is returned is the number of records the query returned, revoked ones
  included: with one revoked and one active record the function returns 2 although it
  revokes one. (\<^verbatim>\<open>limitUserTokens\<close> returns the length of the list it revokes.)
\<close>

lemma revokeAllUserTokens_counts_revoked_records:
  "active_records ''u1'' (items db_mixed) = [rec_T2] \<and>
   fst (revokeAllUserTokens ''u1'' db_mixed) = Inr 2"
  by (simp add: revokeAllUserTokens_def sample_defs op_defs)

text \<open>
  The function sends one query and does not ask for the pages after the first
  (\<^verbatim>\<open>cleanExpiredTokens\<close> does, following \<^verbatim>\<open>LastEvaluatedKey\<close>): on a store whose page
  holds one record, the second record of the user stays active.
\<close>

lemma revokeAllUserTokens_reads_one_page:
  "fst (revokeAllUserTokens ''u1'' db_two_paged) = Inr 1 \<and>
   active_records ''u1'' (items (snd (revokeAllUserTokens ''u1'' db_two_paged))) = [rec_T2]"
  by (simp add: revokeAllUserTokens_def sample_defs op_defs)

text \<open>
  Claim C6 fails as stated for a limit below one: with \<open>maxTokens = 0\<close> the start of the
  slice is \<open>-1\<close>, which \<^verbatim>\<open>slice\<close> counts from the end of the array, so of two active
  records only the oldest is revoked and the newest, at position 0, stays active.
\<close>

theorem limitUserTokens_zero_keeps_newest:
  "0 \<le> int (length (active_records ''u1'' (items db_two))) \<and>
   sort_newest_first (active_records ''u1'' (items db_two)) = [rec_T2, rec_T1] \<and>
   fst (limitUserTokens ''u1'' 0 db_two) = Inr 1 \<and>
   active_records ''u1'' (items (snd (limitUserTokens ''u1'' 0 db_two))) = [rec_T2]"
  by (simp add: limitUserTokens_def sample_defs op_defs)

text \<open>
  Claim C6, amended to limits of at least one. For \<open>maxTokens \<ge> 1\<close>, when the store
  accepts every request, \<^verbatim>\<open>limitUserTokens\<close> orders the non-revoked records of the user
  newest first by \<open>created_at\<close>; with fewer than \<open>maxTokens\<close> of them it returns 0 and
  leaves the table as it was; otherwise it revokes every record from position
  \<open>maxTokens - 1\<close> on, returns their number, and the records still active are exactly the
  newest \<open>maxTokens - 1\<close>. With 7 active records and \<open>maxTokens = 5\<close> it returns 3 and 4
  stay active. (Table keys are distinct, and all records of the user fit the one page
  that the query reads.)
\<close>

theorem limitUserTokens_keeps_newest:
  assumes keys: "distinct (map key_of (items d))"
    and pos: "1 \<le> maxTokens"
    and ok: "requests_accepted d (snd (limitUserTokens u maxTokens d))"
    and whole: "one_page d u"
  shows "sorted_wrt (\<lambda>a b. created_at b \<le> created_at a)
           (sort_newest_first (active_records u (items d))) \<and>
         set (sort_newest_first (active_records u (items d))) = set (active_records u (items d)) \<and>
         (int (length (active_records u (items d))) < maxTokens \<longrightarrow>
            fst (limitUserTokens u maxTokens d) = Inr 0 \<and>
            items (snd (limitUserTokens u maxTokens d)) = items d) \<and>
         (maxTokens \<le> int (length (active_records u (items d))) \<longrightarrow>
            fst (limitUserTokens u maxTokens d) =
              Inr (length (drop (nat (maxTokens - 1))
                     (sort_newest_first (active_records u (items d))))) \<and>
            sort_newest_first (active_records u (items (snd (limitUserTokens u maxTokens d)))) =
              take (nat (maxTokens - 1)) (sort_newest_first (active_records u (items d))) \<and>
            (\<forall>r\<in>set (drop (nat (maxTokens - 1)) (sort_newest_first (active_records u (items d)))).
               r\<lparr>revoked := True\<rparr> \<in> set (user_records u (items (snd (limitUserTokens u maxTokens d)))))) \<and>
         (length (active_records u (items d)) = 7 \<and> maxTokens = 5 \<longrightarrow>
            fst (limitUserTokens u maxTokens d) = Inr 3 \<and>
            length (active_records u (items (snd (limitUserTokens u maxTokens d)))) = 4)"
proof -
  define active where "active = active_records u (items d)"
  define tokens where "tokens = sort_newest_first active"
  define m where "m = nat (maxTokens - 1)"
  define d' where "d' = snd (limitUserTokens u maxTokens d)"
  define K where "K = token_hash ` set (drop m tokens)"
  have qa: "queried_active (page d) u (items d) = active_records u (items d)"
    using whole by (rule one_page_queried_active)
  have first: "fails d (sends d) = None"
    using ok by (rule requests_accepted_first) (simp add: limitUserTokens_sends)
  have ordered: "sorted_wrt (\<lambda>a b. created_at b \<le> created_at a) tokens"
    unfolding tokens_def by (rule sorted_newest_first)
  have same: "set tokens = set active"
    by (simp add: tokens_def sort_newest_first_def)
  have below: "fst (limitUserTokens u maxTokens d) = Inr 0 \<and> items d' = items d"
    if "int (length active) < maxTokens"
    using that first by (simp add: limitUserTokens_below qa active_def d'_def)
  have above: "fst (limitUserTokens u maxTokens d) = Inr (length (drop m tokens)) \<and>
               sort_newest_first (active_records u (items d')) = take m tokens \<and>
               (\<forall>r\<in>set (drop m tokens). r\<lparr>revoked := True\<rparr> \<in> set (user_records u (items d')))"
    if enough: "maxTokens \<le> int (length active)"
  proof -
    have enough': "maxTokens \<le> int (length (queried_active (page d) u (items d)))"
      using enough by (simp add: active_def qa)
    note tail = limitUserTokens_revokes_tail [OF keys pos ok enough']
    have res: "fst (limitUserTokens u maxTokens d) = Inr (length (drop m tokens))"
      using tail(1) by (simp add: m_def tokens_def active_def qa)
    have recs: "user_records u (items d') = map (mark_revoked K) (user_records u (items d))"
      using tail(2) by (simp add: m_def tokens_def active_def d'_def K_def qa)
    have "active_records u (items d') = filter (\<lambda>r. token_hash r \<notin> K) active"
      unfolding active_records_def recs active_def by (rule active_after_marking)
    then have "sort_newest_first (active_records u (items d')) =
               filter (\<lambda>r. token_hash r \<notin> K) tokens"
      by (simp add: sort_newest_first_def tokens_def filter_sort)
    moreover have "distinct (map token_hash tokens)"
      unfolding tokens_def sort_newest_first_def active_def
      using keys by (intro distinct_hash_sorted distinct_hash_active)
    ultimately have kept: "sort_newest_first (active_records u (items d')) = take m tokens"
      unfolding K_def by (simp add: filter_keeps_front)
    have gone: "r\<lparr>revoked := True\<rparr> \<in> set (user_records u (items d'))"
      if r: "r \<in> set (drop m tokens)" for r
    proof -
      have "r \<in> set tokens"
        using r by (rule in_set_dropD)
      then have "r \<in> set (user_records u (items d))"
        using same by (simp add: active_def active_records_def)
      moreover have "mark_revoked K r = r\<lparr>revoked := True\<rparr>"
        using r by (simp add: mark_revoked_def K_def)
      ultimately show ?thesis
        unfolding recs by force
    qed
    show ?thesis
      using res kept gone by blast
  qed
  have seven: "fst (limitUserTokens u maxTokens d) = Inr 3 \<and>
               length (active_records u (items d')) = 4"
    if "length active = 7 \<and> maxTokens = 5"
  proof -
    have len: "length tokens = 7" and m4: "m = 4"
      using that by (simp_all add: tokens_def sort_newest_first_def m_def)
    have "maxTokens \<le> int (length active)"
      using that by simp
    then have a: "fst (limitUserTokens u maxTokens d) = Inr (length (drop m tokens))"
      and b: "sort_newest_first (active_records u (items d')) = take m tokens"
      using above by simp_all
    have "length (sort_newest_first (active_records u (items d'))) = 4"
      unfolding b using len m4 by simp
    then have "length (active_records u (items d')) = 4"
      by (simp add: sort_newest_first_def)
    then show ?thesis
      using a len m4 by simp
  qed
  show ?thesis
    using ordered same below above seven
    unfolding active_def tokens_def m_def d'_def by blast
qed

theorem limitUserTokens_keeps_newest_witness:
  "distinct (map key_of (items db_two)) \<and> (1::int) \<le> 2 \<and> one_page db_two ''u1'' \<and>
   requests_accepted db_two (snd (limitUserTokens ''u1'' 2 db_two)) \<and>
   2 \<le> int (length (active_records ''u1'' (items db_two))) \<and>
   fst (limitUserTokens ''u1'' 2 db_two) = Inr 1 \<and>
   sort_newest_first (active_records ''u1'' (items (snd (limitUserTokens ''u1'' 2 db_two)))) =
     [rec_T2] \<and>
   int (length (active_records ''u1'' (items db_two))) < 5 \<and>
   requests_accepted db_two (snd (limitUserTokens ''u1'' 5 db_two)) \<and>
   fst (limitUserTokens ''u1'' 5 db_two) = Inr 0 \<and>
   items (snd (limitUserTokens ''u1'' 5 db_two)) = items db_two \<and>
   distinct (map key_of (items db_seven)) \<and> one_page db_seven ''u1'' \<and>
   requests_accepted db_seven (snd (limitUserTokens ''u1'' 5 db_seven)) \<and>
   length (active_records ''u1'' (items db_seven)) = 7 \<and>
   fst (limitUserTokens ''u1'' 5 db_seven) = Inr 3 \<and>
   length (active_records ''u1'' (items (snd (limitUserTokens ''u1'' 5 db_seven)))) = 4 \<and>
   sort_newest_first (active_records ''u1'' (items (snd (limitUserTokens ''u1'' 5 db_seven)))) =
     [mk_rec ''K7'' 7000, mk_rec ''K6'' 6000, mk_rec ''K5'' 5000, mk_rec ''K4'' 4000]"
proof -
  have k2: "distinct (map key_of (items db_two))"
    by (simp add: sample_defs)
  have p2: "one_page db_two ''u1''"
    by (simp add: one_page_def sample_defs)
  have p7: "one_page db_seven ''u1''"
    by (simp add: one_page_def sample_defs)
  have a2: "requests_accepted db_two (snd (limitUserTokens ''u1'' 2 db_two))"
    by (simp add: limitUserTokens_def requests_accepted_def sample_defs op_defs)
  have n2: "2 \<le> int (length (active_records ''u1'' (items db_two)))"
    by (simp add: sample_defs op_defs)
  have a5: "requests_accepted db_two (snd (limitUserTokens ''u1'' 5 db_two))"
    by (simp add: limitUserTokens_def requests_accepted_def sample_defs op_defs)
  have n5: "int (length (active_records ''u1'' (items db_two))) < 5"
    by (simp add: sample_defs op_defs)
  have k7: "distinct (map key_of (items db_seven))"
    by (simp add: db_seven_def mk_rec_def whole_page_def)
  have a7: "requests_accepted db_seven (snd (limitUserTokens ''u1'' 5 db_seven))"
    by (simp add: limitUserTokens_def requests_accepted_def db_seven_def mk_rec_def whole_page_def
                  no_faults_def op_defs eval_nat_numeral)
  have n7: "length (active_records ''u1'' (items db_seven)) = 7"
    by (simp add: db_seven_def mk_rec_def whole_page_def op_defs)
  have n7': "length (sort_newest_first (active_records ''u1'' (items db_seven))) = 7"
    using n7 by (simp add: sort_newest_first_def)
  have s7: "take (nat (5 - 1)) (sort_newest_first (active_records ''u1'' (items db_seven))) =
            [mk_rec ''K7'' 7000, mk_rec ''K6'' 6000, mk_rec ''K5'' 5000, mk_rec ''K4'' 4000]"
    by (simp add: db_seven_def mk_rec_def whole_page_def op_defs)
  have s2: "take (nat (2 - 1)) (sort_newest_first (active_records ''u1'' (items db_two))) = [rec_T2]"
       "length (drop (nat (2 - 1)) (sort_newest_first (active_records ''u1'' (items db_two)))) = 1"
    by (simp_all add: sample_defs op_defs)
  note two = limitUserTokens_keeps_newest [OF k2 _ a2 p2]
  note five = limitUserTokens_keeps_newest [OF k2 _ a5 p2]
  note seven = limitUserTokens_keeps_newest [OF k7 _ a7 p7]
  have r2: "fst (limitUserTokens ''u1'' 2 db_two) = Inr 1 \<and>
            sort_newest_first (active_records ''u1'' (items (snd (limitUserTokens ''u1'' 2 db_two)))) =
              [rec_T2]"
    using two n2 s2 by simp
  have r5: "fst (limitUserTokens ''u1'' 5 db_two) = Inr 0 \<and>
            items (snd (limitUserTokens ''u1'' 5 db_two)) = items db_two"
    using five n5 by simp
  have r7: "fst (limitUserTokens ''u1'' 5 db_seven) = Inr 3 \<and>
            length (active_records ''u1'' (items (snd (limitUserTokens ''u1'' 5 db_seven)))) = 4 \<and>
            sort_newest_first (active_records ''u1'' (items (snd (limitUserTokens ''u1'' 5 db_seven)))) =
              [mk_rec ''K7'' 7000, mk_rec ''K6'' 6000, mk_rec ''K5'' 5000, mk_rec ''K4'' 4000]"
    using seven n7 n7' s7 by simp
  show ?thesis
    using k2 p2 a2 n2 r2 n5 a5 r5 k7 p7 a7 n7 r7 by simp
qed

text \<open>
  Like \<^verbatim>\<open>revokeAllUserTokens\<close>, the function sends one query and counts the active
  records of its first page only: on a store whose page holds one record, a user with
  two active records is below a limit of two, and nothing is revoked.
\<close>

lemma limitUserTokens_reads_one_page:
  "length (active_records ''u1'' (items db_two_paged)) = 2 \<and>
   fst (limitUserTokens ''u1'' 2 db_two_paged) = Inr 0 \<and>
   items (snd (limitUserTokens ''u1'' 2 db_two_paged)) = items db_two_paged"
  by (simp add: limitUserTokens_def sample_defs op_defs)

section \<open>Store failures\<close>



section \<open>The revoked flag\<close>

text \<open>
  Claim C5, at an input where the code breaks it. \<^verbatim>\<open>createRefreshToken\<close> writes with an
  unconditional put. On a token whose hash is the key of a revoked record, the record
  under that key has \<open>revoked = False\<close> afterwards. (The sibling \<^verbatim>\<open>createUser\<close> guards
  its put with \<^verbatim>\<open>attribute_not_exists\<close> to prevent overwrites.)
\<close>

theorem createRefreshToken_resets_revoked:
  "tbl_get (id_digest ''T1'') (items db_revoked) = Some (Full (rec_T1\<lparr>revoked := True\<rparr>)) \<and>
   tbl_get (id_digest ''T1'')
     (items (snd (createRefreshToken id_digest ''id9'' 1000 ''u1'' ''T1'' db_revoked))) =
     Some (Full \<lparr>rec_id = ''id9'', token_hash = ''T1'', user_id = ''u1'',
                 expires_at = 604801000, ttl = 604801, revoked = False,
                 created_at = 1000, last_used_at = 1000\<rparr>)"
  by (simp add: createRefreshToken_def Let_def sample_defs op_defs)

text \<open>
  The other operations of the repository do keep the flag: an item that is revoked stays
  revoked through \<^verbatim>\<open>getRefreshToken\<close>, \<^verbatim>\<open>updateRefreshTokenLastUsed\<close>,
  \<^verbatim>\<open>revokeRefreshToken\<close>, \<^verbatim>\<open>revokeAllUserTokens\<close> and \<^verbatim>\<open>limitUserTokens\<close>, whatever
  requests the store rejects.
\<close>

lemma revoked_stays_revoked:
  assumes "revoked_at k (items d)"
  shows "revoked_at k (items (snd (getRefreshToken H token d)))"
    and "revoked_at k (items (snd (updateRefreshTokenLastUsed H now token d)))"
    and "revoked_at k (items (snd (revokeRefreshToken H token d)))"
    and "revoked_at k (items (snd (revokeAllUserTokens u d)))"
    and "revoked_at k (items (snd (limitUserTokens u maxTokens d)))"
proof -
  note keep = updates_keep [where P = "revoked_at k", OF revoked_at_tbl_set_revoked
                              revoked_at_tbl_set_last_used assms]
  show "revoked_at k (items (snd (getRefreshToken H token d)))"
    by (rule keep(1))
  show "revoked_at k (items (snd (updateRefreshTokenLastUsed H now token d)))"
    by (rule keep(2))
  show "revoked_at k (items (snd (revokeRefreshToken H token d)))"
    by (rule keep(3))
  show "revoked_at k (items (snd (revokeAllUserTokens u d)))"
    by (rule keep(4))
  show "revoked_at k (items (snd (limitUserTokens u maxTokens d)))"
    by (rule keep(5))
qed

section \<open>The refresh handler\<close>

text \<open>
  Claim C9 fails as stated for a stored record that is revoked: it still exists and its
  \<open>expires_at\<close> is not in the past, yet \<^verbatim>\<open>getRefreshToken\<close> returns \<^verbatim>\<open>null\<close> for it and
  the handler answers 403 before it reaches \<^verbatim>\<open>payload.sub\<close>.
\<close>

theorem refresh_expired_token_revoked_record_403:
  "jwt_verify env_expired 2000 ''T1'' (REFRESH_TOKEN_SECRET env_expired) =
     Inl (TokenExpiredError ''jwt expired'' 1000) \<and>
   tbl_get (sha256 env_expired ''T1'') (items db_revoked) = Some (Full (rec_T1\<lparr>revoked := True\<rparr>)) \<and>
   2000 \<le> expires_at (rec_T1\<lparr>revoked := True\<rparr>) \<and>
   fst (refresh_route env_expired 2000 ''id9'' (Some ''T1'') db_revoked) =
     reject 403 ''Refresh token not found or revoked''"
  by (simp add: refresh_route_def refresh_check_def verifyToken_def getRefreshToken_def
                route_sample_defs sample_defs op_defs)

text \<open>
  Claim C9, amended by "and is not revoked". For a token that the library reports as
  expired, \<^verbatim>\<open>verifyToken\<close> returns an outcome with \<open>valid = True\<close> and no payload, which
  the guard \<^verbatim>\<open>!result.valid\<close> lets through; when the stored record exists, is not revoked
  and has \<open>expires_at\<close> not in the past (and the store answers the read), the handler
  reads \<^verbatim>\<open>payload.sub\<close> on the missing payload, throws a \<open>TypeError\<close>, and answers 500.
\<close>

theorem refresh_expired_token_throws:
  assumes "token \<noteq> []"
    and "jwt_verify E now token (REFRESH_TOKEN_SECRET E) = Inl (TokenExpiredError msg at)"
  shows "(\<exists>res info. verifyToken (jwt_verify E) now token (REFRESH_TOKEN_SECRET E) = Some res \<and>
            valid res = True \<and> payload res = None \<and>
            error res = Some info \<and> expiredAt info = Some at) \<and>
         (\<forall>it. fails d (sends d) = None \<and>
               tbl_get (sha256 E token) (items d) = Some it \<and> \<not> item_revoked it \<and>
               (case item_expires_at it of None \<Rightarrow> True | Some ex \<Rightarrow> now \<le> ex) \<longrightarrow>
               fst (refresh_route E now uuid (Some token) d) = respond500 TypeError \<and>
               status (fst (refresh_route E now uuid (Some token) d)) = 500)"
proof -
  have v: "verifyToken (jwt_verify E) now token (REFRESH_TOKEN_SECRET E) =
           Some \<lparr>valid = True, payload = None,
                 error = Some \<lparr>errorName = ''TokenExpiredError'', errorMessage = msg,
                               expiredAt = Some at, date = None\<rparr>\<rparr>"
    using assms(2) by (simp add: verifyToken_def)
  have route: "fst (refresh_route E now uuid (Some token) d) = respond500 TypeError"
    if acc: "fails d (sends d) = None"
      and it: "tbl_get (sha256 E token) (items d) = Some it" "\<not> item_revoked it"
      and ex: "case item_expires_at it of None \<Rightarrow> True | Some ex \<Rightarrow> now \<le> ex"
    for it
  proof -
    have "refresh_check E now (Some token) d = (Inr (token, None), d\<lparr>sends := Suc (sends d)\<rparr>)"
      using assms(1) it ex
      by (simp add: refresh_check_def v getRefreshToken_accepted [OF acc] split: option.splits)
    then show ?thesis
      by (simp add: refresh_route_def refresh_rotate_def split_beta)
  qed
  show ?thesis
    using v route by simp
qed

theorem refresh_expired_token_throws_witness:
  "''T1'' \<noteq> [] \<and>
   jwt_verify env_expired 2000 ''T1'' (REFRESH_TOKEN_SECRET env_expired) =
     Inl (TokenExpiredError ''jwt expired'' 1000) \<and>
   fails db_active (sends db_active) = None \<and>
   tbl_get (sha256 env_expired ''T1'') (items db_active) = Some (Full rec_T1) \<and>
   \<not> item_revoked (Full rec_T1) \<and> 2000 \<le> expires_at rec_T1 \<and>
   fst (refresh_route env_expired 2000 ''id9'' (Some ''T1'') db_active) = respond500 TypeError"
  using refresh_expired_token_throws
          [of "''T1''" env_expired 2000 "''jwt expired''" 1000 db_active "''id9''"]
  by (simp add: route_sample_defs sample_defs)

text \<open>
  Claim C1 fails as stated for racing calls: the revoking update carries no condition
  and its result is not read. When two requests with the same cookie have both passed
  the check before either rotates, both answer 200 and each sets a new pair of tokens.
\<close>

theorem refresh_race_double_success:
  "status (fst (fst (refresh_race env_ok 1000 1100 1200 2300 ''idA'' ''idB'' (Some ''T1'') db_active))) = 200 \<and>
   status (snd (fst (refresh_race env_ok 1000 1100 1200 2300 ''idA'' ''idB'' (Some ''T1'') db_active))) = 200 \<and>
   cookies (fst (fst (refresh_race env_ok 1000 1100 1200 2300 ''idA'' ''idB'' (Some ''T1'') db_active))) =
     [(''accessToken'', ''as.u1.i''), (''refreshToken'', ''rs.u1.i'')] \<and>
   cookies (snd (fst (refresh_race env_ok 1000 1100 1200 2300 ''idA'' ''idB'' (Some ''T1'') db_active))) =
     [(''accessToken'', ''as.u1.ii''), (''refreshToken'', ''rs.u1.ii'')]"
  by (simp add: refresh_race_def refresh_check_def refresh_rotate_def verifyToken_def
                getRefreshToken_def revokeRefreshToken_def createRefreshToken_def
                generateAccessToken_def generateRefreshToken_def Let_def
                route_sample_defs sample_defs op_defs eval_nat_numeral)

text \<open>
  Claim C1, amended to calls that run one after the other. When a call of the handler
  answers 200, the store accepted all its requests, and the refresh token it issued
  hashes to another key than the old one, then the record of the old token is revoked in
  the state on which the new record is created, and every later call with the same raw
  token on the resulting state does not answer 200; it answers 403 "Refresh token not
  found or revoked" when the store answers and the codec passes the token.
\<close>

theorem refresh_rotation_sequential:
  assumes run: "refresh_route E now1 uuid1 (Some tok) d = (r1, d1)"
    and ok: "status r1 = 200"
    and acc: "requests_accepted d d1"
    and new: "map_of (cookies r1) ''refreshToken'' = Some newTok"
    and fresh: "sha256 E newTok \<noteq> sha256 E tok"
  shows "(\<exists>it. tbl_get (sha256 E tok)
                 (items (snd (revokeRefreshToken (sha256 E) tok
                               (snd (refresh_check E now1 (Some tok) d))))) = Some it \<and>
               item_revoked it) \<and>
         (\<exists>userId. d1 = snd (createRefreshToken (sha256 E) uuid1 now1 userId newTok
                          (snd (revokeRefreshToken (sha256 E) tok
                                 (snd (refresh_check E now1 (Some tok) d)))))) \<and>
         (\<forall>now2 uuid2. status (fst (refresh_route E now2 uuid2 (Some tok) d1)) \<noteq> 200) \<and>
         (\<forall>now2 uuid2 res.
            fails d1 (sends d1) = None \<and>
            verifyToken (jwt_verify E) now2 tok (REFRESH_TOKEN_SECRET E) = Some res \<and> valid res \<longrightarrow>
            fst (refresh_route E now2 uuid2 (Some tok) d1) =
              reject 403 ''Refresh token not found or revoked'')"
proof -
  define dc where "dc = snd (refresh_check E now1 (Some tok) d)"
  define dr where "dr = snd (revokeRefreshToken (sha256 E) tok dc)"
  obtain c where chk: "refresh_check E now1 (Some tok) d = (Inr c, dc)"
  proof (cases "fst (refresh_check E now1 (Some tok) d)")
    case (Inl res)
    then have answered: "refresh_check E now1 (Some tok) d = (Inl res, dc)"
      by (simp add: prod_eq_iff dc_def)
    then have "r1 = res"
      using run by (simp add: refresh_route_def)
    then show ?thesis
      using refresh_check_answer_status [OF answered] ok by simp
  next
    case (Inr c)
    then have "refresh_check E now1 (Some tok) d = (Inr c, dc)"
      by (simp add: prod_eq_iff dc_def)
    then show ?thesis
      by (rule that)
  qed
  obtain t pl where c: "c = (t, pl)"
    by (cases c)
  note passed = refresh_check_passed [OF chk [unfolded c]]
  have t: "t = tok" and tok: "tok \<noteq> []"
    using passed by auto
  have read: "fails d (sends d) = None" and dc: "dc = d\<lparr>sends := Suc (sends d)\<rparr>"
    using passed by auto
  obtain it0 where it0: "tbl_get (sha256 E tok) (items d) = Some it0"
    using passed t by auto
  have rot: "refresh_rotate E now1 uuid1 (tok, pl) dc = (r1, d1)"
    using run chk c t by (simp add: refresh_route_def)
  obtain p stored where pl: "pl = Some p"
    and create: "createRefreshToken (sha256 E) uuid1 now1 (sub p)
                   (generateRefreshToken (jwt_sign E) now1 (sub p, email p)
                      (REFRESH_TOKEN_SECRET E) (REFRESH_TOKEN_EXPIRY E)) dr = (Inr stored, d1)"
    and cookie: "map_of (cookies r1) ''refreshToken'' =
                   Some (generateRefreshToken (jwt_sign E) now1 (sub p, email p)
                          (REFRESH_TOKEN_SECRET E) (REFRESH_TOKEN_EXPIRY E))"
    using refresh_rotate_success [OF rot ok] unfolding dr_def by blast
  have newTok: "generateRefreshToken (jwt_sign E) now1 (sub p, email p)
                  (REFRESH_TOKEN_SECRET E) (REFRESH_TOKEN_EXPIRY E) = newTok"
    using cookie new by simp
  have d1: "d1 = snd (createRefreshToken (sha256 E) uuid1 now1 (sub p) newTok dr)"
    using create newTok by simp
  have "sends d1 = Suc (Suc (Suc (sends d)))"
    by (simp add: d1 dr_def dc)
  then have three: "accepts (fails d) (sends d) (Suc (Suc (Suc 0)))"
    using acc by (simp add: requests_accepted_def numeral_3_eq_3)
  have update: "fails dc (sends dc) = None"
    using three by (simp add: dc)
  have put: "fails dr (sends dr) = None"
    using three by (simp add: dr_def dc)
  have "revokeRefreshToken (sha256 E) tok dc =
          (Inr True, dc\<lparr>items := tbl_set_revoked (sha256 E tok) (items dc), sends := Suc (sends dc)\<rparr>)"
    using update by (rule revokeRefreshToken_accepted)
  then have dr_items: "items dr = tbl_set_revoked (sha256 E tok) (items d)"
    by (simp add: dr_def dc)
  have revoked_dr: "tbl_get (sha256 E tok) (items dr) = Some (set_revoked it0)"
    by (simp add: dr_items tbl_get_tbl_set_revoked it0)
  have "items d1 = tbl_put (Full \<lparr>rec_id = uuid1, token_hash = sha256 E newTok, user_id = sub p,
            expires_at = now1 + 7 * 24 * 60 * 60 * 1000,
            ttl = (now1 + 7 * 24 * 60 * 60 * 1000) div 1000, revoked = False,
            created_at = now1, last_used_at = now1\<rparr>) (items dr)"
    by (simp add: d1 createRefreshToken_accepted [OF put])
  then have revoked_d1: "tbl_get (sha256 E tok) (items d1) = Some (set_revoked it0)"
    using fresh by (simp add: tbl_get_tbl_put revoked_dr)
  have first: "\<exists>it. tbl_get (sha256 E tok) (items dr) = Some it \<and> item_revoked it"
    using revoked_dr by simp
  have again: "status (fst (refresh_route E now2 uuid2 (Some tok) d1)) \<noteq> 200" for now2 uuid2
    using revoked_d1 by (rule refresh_route_revoked) simp
  have precise: "fst (refresh_route E now2 uuid2 (Some tok) d1) =
                   reject 403 ''Refresh token not found or revoked''"
    if "fails d1 (sends d1) = None"
      and "verifyToken (jwt_verify E) now2 tok (REFRESH_TOKEN_SECRET E) = Some res" and "valid res"
    for now2 uuid2 res
    using revoked_d1 item_revoked_set_revoked tok that by (rule refresh_route_revoked_403)
  have A: "\<exists>it. tbl_get (sha256 E tok)
                 (items (snd (revokeRefreshToken (sha256 E) tok
                               (snd (refresh_check E now1 (Some tok) d))))) = Some it \<and>
               item_revoked it"
    using first unfolding dr_def dc_def .
  have B: "\<exists>userId. d1 = snd (createRefreshToken (sha256 E) uuid1 now1 userId newTok
                          (snd (revokeRefreshToken (sha256 E) tok
                                 (snd (refresh_check E now1 (Some tok) d)))))"
    using d1 unfolding dr_def dc_def by (rule exI [of _ "sub p"])
  have C: "\<forall>now2 uuid2. status (fst (refresh_route E now2 uuid2 (Some tok) d1)) \<noteq> 200"
    using again by (intro allI)
  have D: "\<forall>now2 uuid2 res.
            fails d1 (sends d1) = None \<and>
            verifyToken (jwt_verify E) now2 tok (REFRESH_TOKEN_SECRET E) = Some res \<and> valid res \<longrightarrow>
            fst (refresh_route E now2 uuid2 (Some tok) d1) =
              reject 403 ''Refresh token not found or revoked''"
    using precise by (intro allI impI) (elim conjE)
  show ?thesis
    using A B C D by (intro conjI)
qed

theorem refresh_rotation_sequential_witness:
  "status (fst (refresh_route env_ok 1000 ''idA'' (Some ''T1'') db_active)) = 200 \<and>
   requests_accepted db_active (snd (refresh_route env_ok 1000 ''idA'' (Some ''T1'') db_active)) \<and>
   map_of (cookies (fst (refresh_route env_ok 1000 ''idA'' (Some ''T1'') db_active)))
     ''refreshToken'' = Some ''rs.u1.i'' \<and>
   sha256 env_ok ''rs.u1.i'' \<noteq> sha256 env_ok ''T1'' \<and>
   fst (refresh_route env_ok 2000 ''idB'' (Some ''T1'')
          (snd (refresh_route env_ok 1000 ''idA'' (Some ''T1'') db_active))) =
     reject 403 ''Refresh token not found or revoked''"
proof -
  let ?first = "refresh_route env_ok 1000 ''idA'' (Some ''T1'') db_active"
  have run: "?first = (fst ?first, snd ?first)"
    by simp
  have ok: "status (fst ?first) = 200"
    by (simp add: route_defs route_sample_defs sample_defs op_defs)
  have acc: "requests_accepted db_active (snd ?first)"
    by (simp add: requests_accepted_def route_defs route_sample_defs sample_defs op_defs
                  numeral_3_eq_3)
  have new: "map_of (cookies (fst ?first)) ''refreshToken'' = Some ''rs.u1.i''"
    by (simp add: route_defs route_sample_defs sample_defs op_defs eval_nat_numeral)
  have fresh: "sha256 env_ok ''rs.u1.i'' \<noteq> sha256 env_ok ''T1''"
    by (simp add: env_ok_def id_digest_def)
  have up: "fails (snd ?first) (sends (snd ?first)) = None"
    by (simp add: route_defs route_sample_defs sample_defs op_defs)
  have v: "verifyToken (jwt_verify env_ok) 2000 ''T1'' (REFRESH_TOKEN_SECRET env_ok) =
             Some \<lparr>valid = True,
                   payload = Some \<lparr>sub = ''u1'', email = ''a@x.com'', iat = 0, exp_at = 604800\<rparr>,
                   error = None\<rparr>"
    by (simp add: verifyToken_def env_ok_def jwt_ok_def)
  have "fst (refresh_route env_ok 2000 ''idB'' (Some ''T1'') (snd ?first)) =
          reject 403 ''Refresh token not found or revoked''"
    using refresh_rotation_sequential [OF run ok acc new fresh] up v by simp
  then show ?thesis
    using ok acc new fresh by simp
qed

text \<open>
  The hypothesis on the new token is needed: the signature is determined by the payload,
  the secret and the issue time in seconds, so a refresh in the second in which the old
  token was issued signs the old token again, its record is overwritten with
  \<open>revoked = False\<close>, and the next call with the same raw token answers 200 as well.
\<close>

lemma refresh_twice_same_second:
  "status (fst (refresh_route env_ok 1000 ''idA'' (Some ''rs.u1.i'') db_issued)) = 200 \<and>
   map_of (cookies (fst (refresh_route env_ok 1000 ''idA'' (Some ''rs.u1.i'') db_issued)))
     ''refreshToken'' = Some ''rs.u1.i'' \<and>
   status (fst (refresh_route env_ok 1500 ''idB'' (Some ''rs.u1.i'')
                  (snd (refresh_route env_ok 1000 ''idA'' (Some ''rs.u1.i'') db_issued)))) = 200"
  by (simp add: route_defs route_sample_defs sample_defs op_defs db_issued_def rec_R_def
                eval_nat_numeral)

end
